theory Spec2Isabelle
  imports Complex_Main "HOL-Library.Multiset"
begin

section \<open>Data model\<close>

text \<open>
  The enumerations of \<^verbatim>\<open>cylinders/enums.py\<close> and \<^verbatim>\<open>orders/enums.py\<close>. Members that
  occur in more than one enumeration are written qualified, as the source writes them
  (\<^verbatim>\<open>OrderStatus.IN_TRANSIT\<close>, \<^verbatim>\<open>CylinderStatus.IN_TRANSIT\<close>).
\<close>

datatype CylinderStatus = FILLED | IN_TRANSIT | EMPTY | RETURNED

datatype CylinderEventType =
  CREATED | STATUS_CHANGED | ASSIGNED | UNASSIGNED | LOCATION_UPDATED | DELETED

datatype OrderStatus = PENDING | ACCEPTED | IN_TRANSIT | DELIVERED | CANCELLED

datatype OrderUrgency = LOW | MEDIUM | HIGH | CRITICAL

datatype OrderEventType =
  CREATED | STATUS_CHANGED | VENDOR_ASSIGNED | CYLINDERS_ASSIGNED | CYLINDERS_UPDATED
  | CANCELLED | COMPLETED

text \<open>
  Python exceptions are values. \<open>HTTPException\<close> carries the status code and the detail
  string of the source; \<open>AttributeError\<close> names the attribute that does not exist;
  \<open>MultipleResultsFound\<close> is what \<^verbatim>\<open>scalar_one_or_none()\<close> raises on more than one row;
  \<open>IntegrityError\<close> is what a commit raises when the store refuses a row; \<open>ValueError\<close>
  is the "math domain error" of \<^verbatim>\<open>math.sqrt\<close>.
\<close>

datatype error =
  HTTPException int string
  | AttributeError string
  | MultipleResultsFound
  | IntegrityError
  | ValidationError
  | LookupError string
  | ValueError

text \<open>
  A \<^verbatim>\<open>datetime\<close> is kept as an opaque number. A coordinate is the value of a finite
  Python \<^verbatim>\<open>float\<close>, a real number.
\<close>

type_synonym datetime = int

record Location =
  address :: "string option"
  latitude :: "real option"
  longitude :: "real option"
  loc_notes :: "string option"

text \<open>
  The rows of \<^verbatim>\<open>cylinders/models.py\<close> and \<^verbatim>\<open>orders/models.py\<close>. Field names carry the
  table as a prefix where two tables share a column name. Columns declared
  \<^verbatim>\<open>nullable=False\<close> have the plain type, the others an option; \<^verbatim>\<open>is_assigned\<close> is
  \<^verbatim>\<open>Column(Boolean, default=False)\<close> and so nullable. The server-side timestamps
  (\<^verbatim>\<open>created_at\<close>, \<^verbatim>\<open>updated_at\<close>) and the surrogate ids of log rows are not part of
  the model: log tables are lists in insertion order.
\<close>

record Cylinder =
  cyl_id :: int
  serial_number :: string
  cyl_status :: CylinderStatus
  cyl_vendor_id :: int
  cyl_location :: "Location option"
  is_assigned :: "bool option"
  current_order_id :: "int option"

record CylinderLog =
  cl_cylinder_id :: int
  cl_event_type :: CylinderEventType
  cl_old_status :: "CylinderStatus option"
  cl_new_status :: "CylinderStatus option"
  cl_order_id :: "int option"
  cl_location :: "Location option"
  cl_notes :: "string option"
  cl_created_by :: int

record Order =
  ord_id :: int
  hospital_id :: int
  ord_vendor_id :: "int option"
  ord_status :: OrderStatus
  payment_status :: "string option"
  total_amount :: int
  urgency :: OrderUrgency
  quantity :: int
  delivery_location :: Location
  special_instructions :: "string option"
  cylinders_sent :: int
  empty_cylinders_returned :: int
  expected_delivery :: "datetime option"
  delivered_at :: "datetime option"

text \<open>
  The \<^verbatim>\<open>details\<close> dictionary of an order log row, one constructor per shape the services
  write: \<^verbatim>\<open>{"assigned_cylinders", "expected_delivery"}\<close> on acceptance,
  \<^verbatim>\<open>{"cylinders_sent", "empty_cylinders_returned", "notes"}\<close> on a delivery status
  update of the order engine, and \<^verbatim>\<open>{"location", "status_update", "driver"?}\<close> for the
  delivery tracker.
\<close>

record DeliveryUpdate =
  du_eta :: "datetime option"
  du_current_location :: "string option"
  du_status :: string
  du_notes :: "string option"

datatype details =
  AcceptDetails "int list" datetime
  | DeliveryDetails int int "string option"
  | TrackingDetails "string option" DeliveryUpdate "(string \<times> string) list option"

record OrderLog =
  ol_order_id :: int
  ol_event_type :: OrderEventType
  ol_old_status :: "OrderStatus option"
  ol_new_status :: "OrderStatus option"
  ol_details :: "details option"
  ol_notes :: "string option"
  ol_created_by :: int

text \<open>
  The values the services put into the cache: the dictionaries built by
  \<^verbatim>\<open>_cache_cylinder\<close> (id, serial number, status, vendor, location, is_assigned, current
  order) and \<^verbatim>\<open>_cache_order\<close> (id, hospital, vendor, status, urgency, quantity, delivery
  location, cylinders sent, empty cylinders returned).
\<close>

datatype cache_value =
  CylinderDict int string CylinderStatus int "Location option" "bool option" "int option"
  | OrderDict int int "int option" OrderStatus OrderUrgency int Location int int

text \<open>
  The state the services work on: the tables of the store, the association table
  \<^verbatim>\<open>order_cylinders\<close> behind \<^verbatim>\<open>Order.cylinders\<close> (a set of (order id, cylinder id) pairs,
  its composite primary key), the two id sequences of the store, and the cache, keyed by
  the key parts \<^verbatim>\<open>[prefix, id]\<close> that \<^verbatim>\<open>_generate_key\<close> joins. Of the constraints of the
  store the model has the primary keys and, where a service hands the store a null for
  it, the \<^verbatim>\<open>nullable=False\<close> of a column: the commit then raises \<^verbatim>\<open>IntegrityError\<close>.
\<close>

record state =
  cylinders :: "Cylinder list"
  cylinder_logs :: "CylinderLog list"
  orders :: "Order list"
  order_logs :: "OrderLog list"
  order_cylinders :: "(int \<times> int) set"
  cylinders_id_seq :: int
  orders_id_seq :: int
  cache :: "string \<times> int \<rightharpoonup> cache_value"

section \<open>Store and cache primitives\<close>

text \<open>
  \<^verbatim>\<open>Result.scalar_one_or_none()\<close>: no row gives \<^verbatim>\<open>None\<close>, one row gives the row, more
  than one raises.
\<close>

fun scalar_one_or_none :: "'a list \<Rightarrow> error + 'a option" where
  "scalar_one_or_none [] = Inr None"
| "scalar_one_or_none [x] = Inr (Some x)"
| "scalar_one_or_none (x # y # zs) = Inl MultipleResultsFound"

definition select_cylinder :: "state \<Rightarrow> int \<Rightarrow> error + Cylinder option" where
  "select_cylinder s cylinder_id =
     scalar_one_or_none (filter (\<lambda>c. cyl_id c = cylinder_id) (cylinders s))"

definition select_order :: "state \<Rightarrow> int \<Rightarrow> error + Order option" where
  "select_order s order_id =
     scalar_one_or_none (filter (\<lambda>ord. ord_id ord = order_id) (orders s))"

definition cache_set :: "state \<Rightarrow> string \<times> int \<Rightarrow> cache_value \<Rightarrow> state" where
  "cache_set s key v = s\<lparr>cache := (cache s)(key \<mapsto> v)\<rparr>"

definition cache_delete :: "state \<Rightarrow> string \<times> int \<Rightarrow> state" where
  "cache_delete s key = s\<lparr>cache := (cache s)(key := None)\<rparr>"

definition cache_cylinder :: "state \<Rightarrow> Cylinder \<Rightarrow> state" where
  "cache_cylinder s cylinder =
     cache_set s (''cylinder'', cyl_id cylinder)
       (CylinderDict (cyl_id cylinder) (serial_number cylinder) (cyl_status cylinder)
          (cyl_vendor_id cylinder) (cyl_location cylinder) (is_assigned cylinder)
          (current_order_id cylinder))"

definition cache_order :: "state \<Rightarrow> Order \<Rightarrow> state" where
  "cache_order s ord =
     cache_set s (''order'', ord_id ord)
       (OrderDict (ord_id ord) (hospital_id ord) (ord_vendor_id ord) (ord_status ord)
          (urgency ord) (quantity ord) (delivery_location ord) (cylinders_sent ord)
          (empty_cylinders_returned ord))"

text \<open>
  \<^verbatim>\<open>_invalidate_cylinder_cache\<close> deletes the entity key and the keys matching
  \<^verbatim>\<open>cylinder:list:*\<close>; no service ever sets a list key, and a key \<^verbatim>\<open>cylinder:<id>\<close> does
  not match the pattern, so only the entity key goes.
\<close>

definition invalidate_cylinder_cache :: "state \<Rightarrow> int \<Rightarrow> state" where
  "invalidate_cylinder_cache s cylinder_id = cache_delete s (''cylinder'', cylinder_id)"

section \<open>Single-entity reads\<close>

text \<open>
  \<^verbatim>\<open>CylinderService.get\<close> and \<^verbatim>\<open>OrderService.get\<close>. The cache holds the JSON text of a
  dictionary, never the empty string, so \<^verbatim>\<open>if cached:\<close> is the test for a hit. On a hit
  the row is read from the store all the same; on a miss it is read and, when found,
  cached.
\<close>

definition CylinderService_get :: "state \<Rightarrow> int \<Rightarrow> (error + Cylinder option) \<times> state" where
  "CylinderService_get s cylinder_id =
     (case cache s (''cylinder'', cylinder_id) of
        Some cached \<Rightarrow> (select_cylinder s cylinder_id, s)
      | None \<Rightarrow>
          (case select_cylinder s cylinder_id of
             Inl e \<Rightarrow> (Inl e, s)
           | Inr None \<Rightarrow> (Inr None, s)
           | Inr (Some cylinder) \<Rightarrow> (Inr (Some cylinder), cache_cylinder s cylinder)))"

definition OrderService_get :: "state \<Rightarrow> int \<Rightarrow> (error + Order option) \<times> state" where
  "OrderService_get s order_id =
     (case cache s (''order'', order_id) of
        Some cached \<Rightarrow> (select_order s order_id, s)
      | None \<Rightarrow>
          (case select_order s order_id of
             Inl e \<Rightarrow> (Inl e, s)
           | Inr None \<Rightarrow> (Inr None, s)
           | Inr (Some ord) \<Rightarrow> (Inr (Some ord), cache_order s ord)))"

section \<open>Cylinder registry\<close>

text \<open>
  The request schemas of \<^verbatim>\<open>cylinders/schemas.py\<close>. \<^verbatim>\<open>CylinderUpdate\<close> is dumped with
  \<^verbatim>\<open>exclude_unset=True\<close>, so each field is either unset (\<open>None\<close>) or set to a value that
  may itself be null (\<open>Some None\<close>).
\<close>

record CylinderCreate =
  cc_serial_number :: string
  cc_location :: "Location option"
  cc_status :: CylinderStatus

record CylinderUpdate =
  upd_status :: "CylinderStatus option option"
  upd_location :: "Location option option"
  upd_is_assigned :: "bool option option"
  upd_current_order_id :: "int option option"

text \<open>Reading a field of the schema object gives its default \<^verbatim>\<open>None\<close> when it is unset.\<close>

definition field_value :: "'a option option \<Rightarrow> 'a option" where
  "field_value f = (case f of None \<Rightarrow> None | Some v \<Rightarrow> v)"

text \<open>
  \<^verbatim>\<open>create_log\<close> adds the log row and commits. A commit writes every pending change of
  the session; \<open>write_cylinder\<close> is that write for a cylinder object the service has
  changed, found by its primary key.
\<close>

definition CylinderService_create_log :: "state \<Rightarrow> CylinderLog \<Rightarrow> state" where
  "CylinderService_create_log s log_in = s\<lparr>cylinder_logs := cylinder_logs s @ [log_in]\<rparr>"

definition write_cylinder :: "state \<Rightarrow> Cylinder \<Rightarrow> state" where
  "write_cylinder s cylinder =
     s\<lparr>cylinders := map (\<lambda>c. if cyl_id c = cyl_id cylinder then cylinder else c) (cylinders s)\<rparr>"

definition select_cylinder_by_serial :: "state \<Rightarrow> string \<Rightarrow> error + Cylinder option" where
  "select_cylinder_by_serial s serial =
     scalar_one_or_none (filter (\<lambda>c. serial_number c = serial) (cylinders s))"

definition CylinderService_create ::
  "state \<Rightarrow> CylinderCreate \<Rightarrow> int \<Rightarrow> (error + Cylinder) \<times> state" where
  "CylinderService_create s cylinder_in vendor_id =
     (case select_cylinder_by_serial s (cc_serial_number cylinder_in) of
        Inl e \<Rightarrow> (Inl e, s)
      | Inr (Some existing) \<Rightarrow> (Inl (HTTPException 400 ''Serial number already registered''), s)
      | Inr None \<Rightarrow>
          (let db_cylinder =
                 \<lparr>cyl_id = cylinders_id_seq s,
                  serial_number = cc_serial_number cylinder_in,
                  cyl_status = cc_status cylinder_in,
                  cyl_vendor_id = vendor_id,
                  cyl_location = cc_location cylinder_in,
                  is_assigned = Some False,
                  current_order_id = None\<rparr>;
               s1 = s\<lparr>cylinders := cylinders s @ [db_cylinder],
                       cylinders_id_seq := cylinders_id_seq s + 1\<rparr>;
               s2 = CylinderService_create_log s1
                      \<lparr>cl_cylinder_id = cyl_id db_cylinder,
                       cl_event_type = CylinderEventType.CREATED,
                       cl_old_status = None,
                       cl_new_status = Some (cyl_status db_cylinder),
                       cl_order_id = None,
                       cl_location = cc_location cylinder_in,
                       cl_notes = Some ''Cylinder created'',
                       cl_created_by = vendor_id\<rparr>
           in (Inr db_cylinder, cache_cylinder s2 db_cylinder)))"

text \<open>The \<^verbatim>\<open>setattr\<close> loop of \<^verbatim>\<open>update\<close> over the fields that were set.\<close>

definition setattrs :: "Cylinder \<Rightarrow> CylinderUpdate \<Rightarrow> Cylinder" where
  "setattrs cylinder cylinder_in =
     cylinder
       \<lparr>cyl_status := (case upd_status cylinder_in of
                         Some (Some st) \<Rightarrow> st | _ \<Rightarrow> cyl_status cylinder),
        cyl_location := (case upd_location cylinder_in of
                           Some v \<Rightarrow> v | None \<Rightarrow> cyl_location cylinder),
        is_assigned := (case upd_is_assigned cylinder_in of
                          Some v \<Rightarrow> v | None \<Rightarrow> is_assigned cylinder),
        current_order_id := (case upd_current_order_id cylinder_in of
                               Some v \<Rightarrow> v | None \<Rightarrow> current_order_id cylinder)\<rparr>"

text \<open>
  \<^verbatim>\<open>CylinderService.update\<close>. A status explicitly set to null passes the guard of the log
  (it is falsy) and is refused by the store at the commit, the column being
  \<^verbatim>\<open>nullable=False\<close>; the transaction is rolled back.
\<close>

definition CylinderService_update ::
  "state \<Rightarrow> int \<Rightarrow> CylinderUpdate \<Rightarrow> int \<Rightarrow> (error + Cylinder) \<times> state" where
  "CylinderService_update s cylinder_id cylinder_in user_id =
     (case CylinderService_get s cylinder_id of
        (Inl e, s1) \<Rightarrow> (Inl e, s1)
      | (Inr None, s1) \<Rightarrow> (Inl (HTTPException 404 ''Cylinder not found''), s1)
      | (Inr (Some cylinder), s1) \<Rightarrow>
          (let old_status = cyl_status cylinder;
               cylinder' = setattrs cylinder cylinder_in;
               s2 = (if field_value (upd_status cylinder_in) \<noteq> None
                        \<and> field_value (upd_status cylinder_in) \<noteq> Some old_status
                     then CylinderService_create_log s1
                            \<lparr>cl_cylinder_id = cyl_id cylinder',
                             cl_event_type = CylinderEventType.STATUS_CHANGED,
                             cl_old_status = Some old_status,
                             cl_new_status = field_value (upd_status cylinder_in),
                             cl_order_id = current_order_id cylinder',
                             cl_location = field_value (upd_location cylinder_in),
                             cl_notes = None,
                             cl_created_by = user_id\<rparr>
                     else s1)
           in if upd_status cylinder_in = Some None then (Inl IntegrityError, s1)
              else (Inr cylinder', cache_cylinder (write_cylinder s2 cylinder') cylinder')))"

text \<open>
  \<^verbatim>\<open>CylinderService.update_status_bulk\<close>: the loop over the ids, with the list of updated
  cylinders as accumulator. \<^verbatim>\<open>user_id\<close> defaults to \<^verbatim>\<open>None\<close>, which the log schema
  (\<^verbatim>\<open>created_by: int\<close>) refuses. A \<^verbatim>\<open>Location\<close> object is truthy. Each \<^verbatim>\<open>create_log\<close>
  commits, so the work of earlier iterations stays when a later one raises.
\<close>

fun update_status_bulk_loop ::
  "state \<Rightarrow> int list \<Rightarrow> CylinderStatus \<Rightarrow> Location option \<Rightarrow> string option \<Rightarrow> int option
     \<Rightarrow> int option \<Rightarrow> Cylinder list \<Rightarrow> (error + Cylinder list) \<times> state" where
  "update_status_bulk_loop s [] new_status location notes user_id order_id updated_cylinders =
     (Inr updated_cylinders, s)"
| "update_status_bulk_loop s (cid # ids) new_status location notes user_id order_id
       updated_cylinders =
     (case CylinderService_get s cid of
        (Inl e, s1) \<Rightarrow> (Inl e, s1)
      | (Inr None, s1) \<Rightarrow>
          update_status_bulk_loop s1 ids new_status location notes user_id order_id
            updated_cylinders
      | (Inr (Some cylinder), s1) \<Rightarrow>
          (let old_status = cyl_status cylinder;
               cylinder' = cylinder
                 \<lparr>cyl_status := new_status,
                  cyl_location := (case location of
                                     Some l \<Rightarrow> Some l | None \<Rightarrow> cyl_location cylinder)\<rparr>
           in (case user_id of
                 None \<Rightarrow> (Inl ValidationError, s1)
               | Some uid \<Rightarrow>
                   (let s2 = CylinderService_create_log (write_cylinder s1 cylinder')
                               \<lparr>cl_cylinder_id = cyl_id cylinder',
                                cl_event_type = CylinderEventType.STATUS_CHANGED,
                                cl_old_status = Some old_status,
                                cl_new_status = Some new_status,
                                cl_order_id = order_id,
                                cl_location = location,
                                cl_notes = notes,
                                cl_created_by = uid\<rparr>
                    in update_status_bulk_loop (cache_cylinder s2 cylinder') ids new_status
                         location notes user_id order_id
                         (updated_cylinders @ [cylinder'])))))"

definition CylinderService_update_status_bulk ::
  "state \<Rightarrow> int list \<Rightarrow> CylinderStatus \<Rightarrow> Location option \<Rightarrow> string option \<Rightarrow> int option
     \<Rightarrow> int option \<Rightarrow> (error + Cylinder list) \<times> state" where
  "CylinderService_update_status_bulk s cylinder_ids new_status location notes user_id order_id =
     update_status_bulk_loop s cylinder_ids new_status location notes user_id order_id []"

text \<open>
  \<^verbatim>\<open>CylinderService.delete\<close>. The deletion log is added and committed, the cache entry
  goes, and then \<^verbatim>\<open>self.db.delete(cylinder)\<close> is committed. \<^verbatim>\<open>Cylinder.logs\<close> is a
  relationship without a delete cascade, so the flush of the deletion first sets
  \<^verbatim>\<open>cylinder_id\<close> of the log rows of the cylinder to null; the column is
  \<^verbatim>\<open>nullable=False\<close>, and when there is such a row the commit raises and the cylinder row
  stays. The log row and the cache invalidation, which came before, stay as well.
\<close>

definition CylinderService_delete :: "state \<Rightarrow> int \<Rightarrow> int \<Rightarrow> (error + bool) \<times> state" where
  "CylinderService_delete s cylinder_id user_id =
     (case CylinderService_get s cylinder_id of
        (Inl e, s1) \<Rightarrow> (Inl e, s1)
      | (Inr None, s1) \<Rightarrow> (Inr False, s1)
      | (Inr (Some cylinder), s1) \<Rightarrow>
          (let s2 = CylinderService_create_log s1
                      \<lparr>cl_cylinder_id = cyl_id cylinder,
                       cl_event_type = CylinderEventType.DELETED,
                       cl_old_status = Some (cyl_status cylinder),
                       cl_new_status = None,
                       cl_order_id = None,
                       cl_location = None,
                       cl_notes = Some ''Cylinder deleted'',
                       cl_created_by = user_id\<rparr>;
               s3 = invalidate_cylinder_cache s2 cylinder_id
           in if filter (\<lambda>l. cl_cylinder_id l = cyl_id cylinder) (cylinder_logs s3) \<noteq> []
              then (Inl IntegrityError, s3)
              else (Inr True,
                    s3\<lparr>cylinders :=
                         filter (\<lambda>c. cyl_id c \<noteq> cyl_id cylinder) (cylinders s3)\<rparr>)))"

section \<open>Order engine\<close>

record OrderCreate =
  oc_quantity :: int
  oc_urgency :: OrderUrgency
  oc_delivery_location :: Location
  oc_special_instructions :: "string option"

record OrderDeliveryUpdate =
  odu_status :: OrderStatus
  odu_cylinders_sent :: int
  odu_empty_cylinders_returned :: int
  odu_delivered_at :: "datetime option"
  odu_notes :: "string option"

definition OrderService_create_log :: "state \<Rightarrow> OrderLog \<Rightarrow> state" where
  "OrderService_create_log s log_in = s\<lparr>order_logs := order_logs s @ [log_in]\<rparr>"

definition write_order :: "state \<Rightarrow> Order \<Rightarrow> state" where
  "write_order s ord =
     s\<lparr>orders := map (\<lambda>x. if ord_id x = ord_id ord then ord else x) (orders s)\<rparr>"

text \<open>
  \<^verbatim>\<open>OrderService.create\<close>. The order object is built from the hospital id and the fields
  of \<^verbatim>\<open>OrderCreate\<close>; \<^verbatim>\<open>total_amount\<close> is not among them and the column has no default,
  so the object carries null for it. The column is \<^verbatim>\<open>nullable=False\<close>: the first commit
  raises, before any log is written. The rest of the method is what would follow.
\<close>

definition OrderService_create :: "state \<Rightarrow> OrderCreate \<Rightarrow> int \<Rightarrow> (error + Order) \<times> state" where
  "OrderService_create s order_in hospital =
     (case (None :: int option) of
        None \<Rightarrow> (Inl IntegrityError, s)
      | Some amount \<Rightarrow>
          (let db_order =
                 \<lparr>ord_id = orders_id_seq s,
                  hospital_id = hospital,
                  ord_vendor_id = None,
                  ord_status = OrderStatus.PENDING,
                  payment_status = Some ''pending'',
                  total_amount = amount,
                  urgency = oc_urgency order_in,
                  quantity = oc_quantity order_in,
                  delivery_location = oc_delivery_location order_in,
                  special_instructions = oc_special_instructions order_in,
                  cylinders_sent = 0,
                  empty_cylinders_returned = 0,
                  expected_delivery = None,
                  delivered_at = None\<rparr>;
               s1 = s\<lparr>orders := orders s @ [db_order], orders_id_seq := orders_id_seq s + 1\<rparr>;
               s2 = OrderService_create_log s1
                      \<lparr>ol_order_id = ord_id db_order,
                       ol_event_type = OrderEventType.CREATED,
                       ol_old_status = None,
                       ol_new_status = Some (ord_status db_order),
                       ol_details = None,
                       ol_notes = Some ''Order created'',
                       ol_created_by = hospital\<rparr>
           in (Inr db_order, cache_order s2 db_order)))"

text \<open>
  The query of \<^verbatim>\<open>accept_order\<close>: the cylinders whose id is among the requested ones and
  that belong to the vendor, are filled and are not assigned. A null \<^verbatim>\<open>is_assigned\<close>
  does not satisfy \<^verbatim>\<open>is_assigned == False\<close> in SQL.
\<close>

definition available_cylinders :: "state \<Rightarrow> int list \<Rightarrow> int \<Rightarrow> Cylinder list" where
  "available_cylinders s assigned_cylinder_ids vendor_id =
     filter (\<lambda>c. cyl_id c \<in> set assigned_cylinder_ids
                  \<and> cyl_vendor_id c = vendor_id
                  \<and> cyl_status c = CylinderStatus.FILLED
                  \<and> is_assigned c = Some False)
       (cylinders s)"

text \<open>
  One round of the assignment loop: the cylinder object is marked and linked, and
  \<^verbatim>\<open>order.cylinders.append(cylinder)\<close> adds the pair to the association table.
\<close>

definition assign_cylinder :: "int \<Rightarrow> Cylinder \<Rightarrow> state \<Rightarrow> state" where
  "assign_cylinder order_id cylinder s =
     (write_cylinder s (cylinder\<lparr>is_assigned := Some True, current_order_id := Some order_id\<rparr>))
       \<lparr>order_cylinders := insert (order_id, cyl_id cylinder) (order_cylinders s)\<rparr>"

definition OrderService_accept_order ::
  "state \<Rightarrow> int \<Rightarrow> int \<Rightarrow> datetime \<Rightarrow> int list \<Rightarrow> (error + Order) \<times> state" where
  "OrderService_accept_order s order_id vendor_id expected assigned_cylinder_ids =
     (case OrderService_get s order_id of
        (Inl e, s1) \<Rightarrow> (Inl e, s1)
      | (Inr None, s1) \<Rightarrow> (Inl (HTTPException 404 ''Order not found''), s1)
      | (Inr (Some ord), s1) \<Rightarrow>
          if ord_status ord \<noteq> OrderStatus.PENDING
          then (Inl (HTTPException 400 ''Order cannot be accepted''), s1)
          else
            (let cyls = available_cylinders s1 assigned_cylinder_ids vendor_id
             in if length cyls \<noteq> length assigned_cylinder_ids
                then (Inl (HTTPException 400 ''Some cylinders are not available''), s1)
                else
                  (let ord' = ord\<lparr>ord_vendor_id := Some vendor_id,
                                   ord_status := OrderStatus.ACCEPTED,
                                   expected_delivery := Some expected\<rparr>;
                       s2 = fold (assign_cylinder order_id) cyls (write_order s1 ord');
                       s3 = OrderService_create_log s2
                              \<lparr>ol_order_id = ord_id ord',
                               ol_event_type = OrderEventType.VENDOR_ASSIGNED,
                               ol_old_status = Some OrderStatus.PENDING,
                               ol_new_status = Some OrderStatus.ACCEPTED,
                               ol_details = Some (AcceptDetails assigned_cylinder_ids expected),
                               ol_notes = None,
                               ol_created_by = vendor_id\<rparr>
                   in (Inr ord', cache_order s3 ord'))))"

definition OrderService_update_delivery_status ::
  "state \<Rightarrow> int \<Rightarrow> OrderDeliveryUpdate \<Rightarrow> int \<Rightarrow> (error + Order) \<times> state" where
  "OrderService_update_delivery_status s order_id update_data user_id =
     (case OrderService_get s order_id of
        (Inl e, s1) \<Rightarrow> (Inl e, s1)
      | (Inr None, s1) \<Rightarrow> (Inl (HTTPException 404 ''Order not found''), s1)
      | (Inr (Some ord), s1) \<Rightarrow>
          (let old_status = ord_status ord;
               ord' = ord\<lparr>ord_status := odu_status update_data,
                            cylinders_sent := odu_cylinders_sent update_data,
                            empty_cylinders_returned := odu_empty_cylinders_returned update_data,
                            delivered_at := (case odu_delivered_at update_data of
                                               Some d \<Rightarrow> Some d | None \<Rightarrow> delivered_at ord)\<rparr>;
               s2 = OrderService_create_log (write_order s1 ord')
                      \<lparr>ol_order_id = ord_id ord',
                       ol_event_type = OrderEventType.STATUS_CHANGED,
                       ol_old_status = Some old_status,
                       ol_new_status = Some (odu_status update_data),
                       ol_details = Some (DeliveryDetails (odu_cylinders_sent update_data)
                                            (odu_empty_cylinders_returned update_data)
                                            (odu_notes update_data)),
                       ol_notes = None,
                       ol_created_by = user_id\<rparr>
           in (Inr ord', cache_order s2 ord')))"

text \<open>
  \<^verbatim>\<open>order.cylinders\<close>: the cylinders joined to the order through the association table
  (\<^verbatim>\<open>Order.cylinders\<close> is declared with \<^verbatim>\<open>secondary=order_cylinders\<close>).
  One round of the loop of \<^verbatim>\<open>cancel_order\<close> clears the flag and the link of a cylinder;
  the collection itself is left as it is.
\<close>

definition order_cylinder_rows :: "state \<Rightarrow> int \<Rightarrow> Cylinder list" where
  "order_cylinder_rows s order_id =
     filter (\<lambda>c. (order_id, cyl_id c) \<in> order_cylinders s) (cylinders s)"

definition unassign_cylinder :: "Cylinder \<Rightarrow> state \<Rightarrow> state" where
  "unassign_cylinder cylinder s =
     write_cylinder s (cylinder\<lparr>is_assigned := Some False, current_order_id := None\<rparr>)"

definition OrderService_cancel_order ::
  "state \<Rightarrow> int \<Rightarrow> int \<Rightarrow> string \<Rightarrow> (error + Order) \<times> state" where
  "OrderService_cancel_order s order_id user_id reason =
     (case OrderService_get s order_id of
        (Inl e, s1) \<Rightarrow> (Inl e, s1)
      | (Inr None, s1) \<Rightarrow> (Inl (HTTPException 404 ''Order not found''), s1)
      | (Inr (Some ord), s1) \<Rightarrow>
          if ord_status ord \<notin> set [OrderStatus.PENDING, OrderStatus.ACCEPTED]
          then (Inl (HTTPException 400 ''Order cannot be cancelled''), s1)
          else
            (let old_status = ord_status ord;
                 ord' = ord\<lparr>ord_status := OrderStatus.CANCELLED\<rparr>;
                 s2 = fold unassign_cylinder (order_cylinder_rows s1 order_id)
                        (write_order s1 ord');
                 s3 = OrderService_create_log s2
                        \<lparr>ol_order_id = ord_id ord',
                         ol_event_type = OrderEventType.CANCELLED,
                         ol_old_status = Some old_status,
                         ol_new_status = Some OrderStatus.CANCELLED,
                         ol_details = None,
                         ol_notes = Some reason,
                         ol_created_by = user_id\<rparr>
             in (Inr ord', cache_order s3 ord')))"

section \<open>Geo-matcher\<close>

text \<open>
  The value of \<^verbatim>\<open>calculate_distance\<close>: the value of a finite float, in kilometres, or
  \<^verbatim>\<open>float('inf')\<close>, ordered as Python orders floats, with infinity above every finite
  value.
\<close>

datatype pyfloat = Fin real | PInf

instantiation pyfloat :: linorder
begin

fun less_eq_pyfloat :: "pyfloat \<Rightarrow> pyfloat \<Rightarrow> bool" where
  "less_eq_pyfloat (Fin a) (Fin b) = (a \<le> b)"
| "less_eq_pyfloat x PInf = True"
| "less_eq_pyfloat PInf (Fin b) = False"

definition less_pyfloat :: "pyfloat \<Rightarrow> pyfloat \<Rightarrow> bool" where
  "less_pyfloat x y = (x \<le> y \<and> \<not> y \<le> (x::pyfloat))"

instance
proof
  fix x y z :: pyfloat
  show "(x < y) = (x \<le> y \<and> \<not> y \<le> x)"
    by (simp add: less_pyfloat_def)
  show "x \<le> x"
    by (cases x) simp_all
  show "x \<le> y \<Longrightarrow> y \<le> z \<Longrightarrow> x \<le> z"
    by (cases x; cases y; cases z) simp_all
  show "x \<le> y \<Longrightarrow> y \<le> x \<Longrightarrow> x = y"
    by (cases x; cases y) simp_all
  show "x \<le> y \<or> y \<le> x"
    by (cases x; cases y) auto
qed

end

text \<open>
  The arithmetic of Python floats (IEEE doubles) is not code of the repository and is
  not the arithmetic of the reals: every operation rounds. It is a parameter of the
  model, a record of the operations \<^verbatim>\<open>calculate_distance\<close> uses, each a function on the
  values of finite floats: \<^verbatim>\<open>math.radians\<close>, \<^verbatim>\<open>math.sin\<close>, \<^verbatim>\<open>math.cos\<close>, \<^verbatim>\<open>math.sqrt\<close>
  (on an argument that is not negative), \<^verbatim>\<open>math.atan2\<close>, and the rounded \<^verbatim>\<open>+\<close>, \<^verbatim>\<open>-\<close>,
  \<^verbatim>\<open>*\<close>, \<^verbatim>\<open>/\<close> and \<^verbatim>\<open>**\<close>. Nothing is assumed of them. What does not round is in the
  model itself: the truthiness of a float, the comparison of two floats, and
  \<^verbatim>\<open>math.sqrt\<close> raising \<^verbatim>\<open>ValueError\<close> on a negative argument.
\<close>

record float_ops =
  fl_radians :: "real \<Rightarrow> real"
  fl_sin :: "real \<Rightarrow> real"
  fl_cos :: "real \<Rightarrow> real"
  fl_sqrt :: "real \<Rightarrow> real"
  fl_atan2 :: "real \<Rightarrow> real \<Rightarrow> real"
  fl_add :: "real \<Rightarrow> real \<Rightarrow> real"
  fl_sub :: "real \<Rightarrow> real \<Rightarrow> real"
  fl_mul :: "real \<Rightarrow> real \<Rightarrow> real"
  fl_div :: "real \<Rightarrow> real \<Rightarrow> real"
  fl_pow :: "real \<Rightarrow> real \<Rightarrow> real"

text \<open>Truthiness of an optional float: \<^verbatim>\<open>None\<close> and \<^verbatim>\<open>0.0\<close> are falsy.\<close>

definition truthy :: "real option \<Rightarrow> bool" where
  "truthy v = (case v of None \<Rightarrow> False | Some x \<Rightarrow> x \<noteq> 0)"

definition math_sqrt :: "float_ops \<Rightarrow> real \<Rightarrow> error + real" where
  "math_sqrt ops x = (if x < 0 then Inl ValueError else Inr (fl_sqrt ops x))"

definition calculate_distance :: "float_ops \<Rightarrow> Location \<Rightarrow> Location \<Rightarrow> error + pyfloat" where
  "calculate_distance ops loc1 loc2 =
     (if \<not> list_all truthy [latitude loc1, longitude loc1, latitude loc2, longitude loc2]
      then Inr PInf
      else
        (let R = 6371;
             lat1 = fl_radians ops (the (latitude loc1));
             lon1 = fl_radians ops (the (longitude loc1));
             lat2 = fl_radians ops (the (latitude loc2));
             lon2 = fl_radians ops (the (longitude loc2));
             dlat = fl_sub ops lat2 lat1;
             dlon = fl_sub ops lon2 lon1;
             a = fl_add ops
                   (fl_pow ops (fl_sin ops (fl_div ops dlat 2)) 2)
                   (fl_mul ops (fl_mul ops (fl_cos ops lat1) (fl_cos ops lat2))
                      (fl_pow ops (fl_sin ops (fl_div ops dlon 2)) 2))
         in (case math_sqrt ops a of
               Inl e \<Rightarrow> Inl e
             | Inr root_a \<Rightarrow>
                 (case math_sqrt ops (fl_sub ops 1 a) of
                    Inl e \<Rightarrow> Inl e
                  | Inr root_1a \<Rightarrow>
                      (let c = fl_mul ops 2 (fl_atan2 ops root_a root_1a)
                       in Inr (Fin (fl_mul ops R c)))))))"

text \<open>
  \<^verbatim>\<open>find_nearby_vendors\<close>: the loop that collects the vendors in range, then Python's
  \<^verbatim>\<open>sorted\<close> with the distance as key, a stable sort. An exception of
  \<^verbatim>\<open>calculate_distance\<close> leaves the loop and the function.
\<close>

fun collect_distances ::
  "float_ops \<Rightarrow> Location \<Rightarrow> (int \<times> Location) list \<Rightarrow> pyfloat \<Rightarrow> (int \<times> pyfloat) list
     \<Rightarrow> error + (int \<times> pyfloat) list" where
  "collect_distances ops target_location [] max_distance distances = Inr distances"
| "collect_distances ops target_location ((vendor_id, vendor_location) # rest) max_distance
       distances =
     (case calculate_distance ops target_location vendor_location of
        Inl e \<Rightarrow> Inl e
      | Inr distance \<Rightarrow>
          if distance \<le> max_distance
          then collect_distances ops target_location rest max_distance
                 (distances @ [(vendor_id, distance)])
          else collect_distances ops target_location rest max_distance distances)"

definition find_nearby_vendors ::
  "float_ops \<Rightarrow> Location \<Rightarrow> (int \<times> Location) list \<Rightarrow> pyfloat
     \<Rightarrow> error + (int \<times> pyfloat) list" where
  "find_nearby_vendors ops target_location vendor_locations max_distance =
     (case collect_distances ops target_location vendor_locations max_distance [] of
        Inl e \<Rightarrow> Inl e
      | Inr distances \<Rightarrow> Inr (sort_key snd distances))"

section \<open>Delivery tracker\<close>

text \<open>
  Attribute access on an enumeration class finds a member by its name and raises
  \<^verbatim>\<open>AttributeError\<close> for a name the class does not define. The member tables are those of
  \<^verbatim>\<open>orders/enums.py\<close>.
\<close>

definition OrderStatus_members :: "(string \<times> OrderStatus) list" where
  "OrderStatus_members =
     [(''PENDING'', OrderStatus.PENDING), (''ACCEPTED'', OrderStatus.ACCEPTED),
      (''IN_TRANSIT'', OrderStatus.IN_TRANSIT), (''DELIVERED'', OrderStatus.DELIVERED),
      (''CANCELLED'', OrderStatus.CANCELLED)]"

definition OrderStatus_values :: "(string \<times> OrderStatus) list" where
  "OrderStatus_values =
     [(''pending'', OrderStatus.PENDING), (''accepted'', OrderStatus.ACCEPTED),
      (''in_transit'', OrderStatus.IN_TRANSIT), (''delivered'', OrderStatus.DELIVERED),
      (''cancelled'', OrderStatus.CANCELLED)]"

definition OrderEventType_members :: "(string \<times> OrderEventType) list" where
  "OrderEventType_members =
     [(''CREATED'', OrderEventType.CREATED), (''STATUS_CHANGED'', OrderEventType.STATUS_CHANGED),
      (''VENDOR_ASSIGNED'', OrderEventType.VENDOR_ASSIGNED),
      (''CYLINDERS_ASSIGNED'', OrderEventType.CYLINDERS_ASSIGNED),
      (''CYLINDERS_UPDATED'', OrderEventType.CYLINDERS_UPDATED),
      (''CANCELLED'', OrderEventType.CANCELLED), (''COMPLETED'', OrderEventType.COMPLETED)]"

definition getattr :: "(string \<times> 'a) list \<Rightarrow> string \<Rightarrow> error + 'a" where
  "getattr members name =
     (case map_of members name of None \<Rightarrow> Inl (AttributeError name) | Some v \<Rightarrow> Inr v)"

text \<open>A list display evaluates its elements from left to right; the first error wins.\<close>

fun getattrs :: "(string \<times> 'a) list \<Rightarrow> string list \<Rightarrow> error + 'a list" where
  "getattrs members [] = Inr []"
| "getattrs members (name # names) =
     (case getattr members name of
        Inl e \<Rightarrow> Inl e
      | Inr v \<Rightarrow> (case getattrs members names of Inl e \<Rightarrow> Inl e | Inr vs \<Rightarrow> Inr (v # vs)))"

text \<open>
  The status of a \<^verbatim>\<open>DeliveryUpdate\<close> is a plain string. \<^verbatim>\<open>OrderStatus\<close> is a \<^verbatim>\<open>str\<close>
  enumeration, so the string compares equal to the member with that value, and the
  enumeration column takes it when it is the value or the name of a member.
\<close>

definition status_value :: "OrderStatus \<Rightarrow> string" where
  "status_value st = fst (the (find (\<lambda>p. snd p = st) OrderStatus_values))"

definition status_of_string :: "string \<Rightarrow> error + OrderStatus" where
  "status_of_string str =
     (case map_of OrderStatus_values str of
        Some st \<Rightarrow> Inr st
      | None \<Rightarrow> (case map_of OrderStatus_members str of
                   Some st \<Rightarrow> Inr st | None \<Rightarrow> Inl (LookupError str)))"

text \<open>
  \<^verbatim>\<open>DeliveryTrackingService.update_delivery_status\<close>, up to its \<^verbatim>\<open>return\<close>. The guard
  builds the list of the three statuses before it tests membership; the log row is
  constructed with \<^verbatim>\<open>OrderEventType.DELIVERY_UPDATE\<close> before it is added. The changes made
  to the order object before an exception are never committed. The notifier is an
  external collaborator and has no effect on the state. The value returned is the
  coroutine \<^verbatim>\<open>self.get_delivery_status(order_id)\<close>, which is not awaited: it is
  represented by its argument.
\<close>

definition DeliveryTrackingService_update_delivery_status ::
  "state \<Rightarrow> int \<Rightarrow> DeliveryUpdate \<Rightarrow> int \<Rightarrow> (string \<times> string) list option
     \<Rightarrow> (error + int) \<times> state" where
  "DeliveryTrackingService_update_delivery_status s order_id update user_id driver_info =
     (case select_order s order_id of
        Inl e \<Rightarrow> (Inl e, s)
      | Inr None \<Rightarrow> (Inl (HTTPException 404 ''Order not found''), s)
      | Inr (Some ord) \<Rightarrow>
          (case getattrs OrderStatus_members [''ACCEPTED'', ''IN_TRANSIT'', ''OUT_FOR_DELIVERY''] of
             Inl e \<Rightarrow> (Inl e, s)
           | Inr delivery_phase \<Rightarrow>
               if ord_status ord \<notin> set delivery_phase
               then (Inl (HTTPException 400 ''Order is not in delivery phase''), s)
               else
                 (case getattr OrderEventType_members ''DELIVERY_UPDATE'' of
                    Inl e \<Rightarrow> (Inl e, s)
                  | Inr event_type \<Rightarrow>
                      (case (if du_status update \<noteq> status_value (ord_status ord)
                             then status_of_string (du_status update)
                             else Inr (ord_status ord)) of
                         Inl e \<Rightarrow> (Inl e, s)
                       | Inr new_status \<Rightarrow>
                           (let ord' = ord\<lparr>ord_status := new_status,
                                            expected_delivery :=
                                              (case du_eta update of
                                                 Some eta \<Rightarrow> Some eta
                                               | None \<Rightarrow> expected_delivery ord)\<rparr>;
                                details = TrackingDetails (du_current_location update) update
                                            (case driver_info of
                                               None \<Rightarrow> None
                                             | Some d \<Rightarrow> if d = [] then None else Some d);
                                s1 = write_order s ord';
                                s2 = s1\<lparr>order_logs := order_logs s1 @
                                         [\<lparr>ol_order_id = order_id,
                                           ol_event_type = event_type,
                                           ol_old_status = None,
                                           ol_new_status = None,
                                           ol_details = Some details,
                                           ol_notes = None,
                                           ol_created_by = user_id\<rparr>]\<rparr>
                            in (Inr order_id, s2))))))"

section \<open>Specification vocabulary\<close>

text \<open>
  Two states hold the same store when they differ at most in the cache: every table, the
  association table and the sequences are equal.
\<close>

definition same_store :: "state \<Rightarrow> state \<Rightarrow> bool" where
  "same_store s s' =
     (cylinders s' = cylinders s \<and> cylinder_logs s' = cylinder_logs s
      \<and> orders s' = orders s \<and> order_logs s' = order_logs s
      \<and> order_cylinders s' = order_cylinders s
      \<and> cylinders_id_seq s' = cylinders_id_seq s \<and> orders_id_seq s' = orders_id_seq s)"

text \<open>
  The primary key of the cylinder table, and the id sequence lying above every cylinder id
  the store knows of (in the table or in the association table).
\<close>

definition cylinder_ids_unique :: "state \<Rightarrow> bool" where
  "cylinder_ids_unique s = distinct (map cyl_id (cylinders s))"

definition cylinder_ids_issued :: "state \<Rightarrow> bool" where
  "cylinder_ids_issued s =
     (list_all (\<lambda>c. cyl_id c < cylinders_id_seq s) (cylinders s)
      \<and> snd ` order_cylinders s \<subseteq> {i. i < cylinders_id_seq s})"

text \<open>
  The two invariants of the data model. First, a cylinder is flagged as assigned exactly
  when its order link is set. Second, the two representations of an assignment agree:
  the orders that hold a cylinder in their cylinder set are exactly its current order,
  if it has one.
\<close>

definition flag_matches_link :: "state \<Rightarrow> bool" where
  "flag_matches_link s =
     list_all (\<lambda>c. (is_assigned c = Some True) = (current_order_id c \<noteq> None)) (cylinders s)"

definition sides_agree :: "state \<Rightarrow> bool" where
  "sides_agree s =
     list_all (\<lambda>c. fst ` Set.filter (\<lambda>p. snd p = cyl_id c) (order_cylinders s)
                     = set_option (current_order_id c))
       (cylinders s)"

definition assignment_consistent :: "state \<Rightarrow> bool" where
  "assignment_consistent s =
     (cylinder_ids_unique s \<and> cylinder_ids_issued s \<and> flag_matches_link s \<and> sides_agree s)"

text \<open>What the invariants read of a cylinder row: its id, its flag and its order link.\<close>

definition row_view :: "Cylinder \<Rightarrow> int \<times> bool option \<times> int option" where
  "row_view c = (cyl_id c, is_assigned c, current_order_id c)"

text \<open>What a cylinder is after a bulk status update, and after assignment and release.\<close>

definition with_status :: "CylinderStatus \<Rightarrow> Location option \<Rightarrow> Cylinder \<Rightarrow> Cylinder" where
  "with_status new_status location c =
     c\<lparr>cyl_status := new_status,
       cyl_location := (case location of Some l \<Rightarrow> Some l | None \<Rightarrow> cyl_location c)\<rparr>"

definition assigned_to :: "int \<Rightarrow> Cylinder \<Rightarrow> Cylinder" where
  "assigned_to order_id c = c\<lparr>is_assigned := Some True, current_order_id := Some order_id\<rparr>"

definition released :: "Cylinder \<Rightarrow> Cylinder" where
  "released c = c\<lparr>is_assigned := Some False, current_order_id := None\<rparr>"

definition is_available :: "int \<Rightarrow> Cylinder \<Rightarrow> bool" where
  "is_available vendor_id c =
     (cyl_vendor_id c = vendor_id \<and> cyl_status c = CylinderStatus.FILLED
      \<and> is_assigned c = Some False)"

text \<open>
  The candidates of \<^verbatim>\<open>find_nearby_vendors\<close> paired with the distances the code computes
  for them, in the order of the input, for the case that no computation raises; and those
  of them whose computed distance is within the maximum.
\<close>

definition computed_distances ::
  "float_ops \<Rightarrow> Location \<Rightarrow> (int \<times> Location) list \<Rightarrow> (int \<times> pyfloat) list" where
  "computed_distances ops target_location vendor_locations =
     map (\<lambda>(vendor_id, vendor_location).
            (vendor_id,
             case calculate_distance ops target_location vendor_location of
               Inl e \<Rightarrow> PInf | Inr distance \<Rightarrow> distance))
       vendor_locations"

definition computed_within ::
  "float_ops \<Rightarrow> Location \<Rightarrow> (int \<times> Location) list \<Rightarrow> pyfloat \<Rightarrow> (int \<times> pyfloat) list" where
  "computed_within ops target_location vendor_locations max_distance =
     filter (\<lambda>p. snd p \<le> max_distance)
       (computed_distances ops target_location vendor_locations)"

section \<open>The end-to-end scenario\<close>

text \<open>
  The store of scenarios B and C of the specification: one pending order of hospital 10
  for three cylinders, and three filled, unassigned cylinders of vendor 20. The order is
  a row of the orders table as the table admits it, with a total amount;
  \<^verbatim>\<open>OrderService.create\<close> gives none and cannot have written the row.
\<close>

definition scenario_location :: Location where
  "scenario_location =
     \<lparr>address = Some ''Ward 4'', latitude = Some 6, longitude = Some 3, loc_notes = None\<rparr>"

definition scenario_cylinder :: "int \<Rightarrow> string \<Rightarrow> Cylinder" where
  "scenario_cylinder i serial =
     \<lparr>cyl_id = i, serial_number = serial, cyl_status = CylinderStatus.FILLED,
      cyl_vendor_id = 20, cyl_location = None, is_assigned = Some False,
      current_order_id = None\<rparr>"

definition scenario_order :: Order where
  "scenario_order =
     \<lparr>ord_id = 1, hospital_id = 10, ord_vendor_id = None, ord_status = OrderStatus.PENDING,
      payment_status = Some ''pending'', total_amount = 45000,
      urgency = OrderUrgency.HIGH, quantity = 3, delivery_location = scenario_location,
      special_instructions = None, cylinders_sent = 0, empty_cylinders_returned = 0,
      expected_delivery = None, delivered_at = None\<rparr>"

definition scenario_state :: state where
  "scenario_state =
     \<lparr>cylinders = [scenario_cylinder 1 ''A'', scenario_cylinder 2 ''B'',
                   scenario_cylinder 3 ''C''],
      cylinder_logs = [],
      orders = [scenario_order],
      order_logs = [],
      order_cylinders = {},
      cylinders_id_seq = 4,
      orders_id_seq = 2,
      cache = Map.empty\<rparr>"

text \<open>
  Scenario B carried out: the store after the vendor has accepted the order with the three
  cylinders. And a store in which the first cylinder has been linked to the order by a
  plain \<^verbatim>\<open>update\<close> of the cylinder registry, which sets the flag and the link and leaves
  the order's cylinder set alone.
\<close>

definition scenario_accepted :: state where
  "scenario_accepted = snd (OrderService_accept_order scenario_state 1 20 100 [1, 2, 3])"

definition scenario_linked :: state where
  "scenario_linked =
     snd (CylinderService_update scenario_state 1
            \<lparr>upd_status = None, upd_location = None, upd_is_assigned = Some (Some True),
             upd_current_order_id = Some (Some 1)\<rparr> 20)"

text \<open>
  A store with a second pending order, in which the vendor has accepted the first order
  with cylinders 1 and 2: order 1 is accepted and holds two cylinders, order 2 is pending,
  cylinder 3 is free.
\<close>

definition scenario_second_order :: Order where
  "scenario_second_order = scenario_order\<lparr>ord_id := 2, quantity := 1\<rparr>"

definition scenario_two_orders :: state where
  "scenario_two_orders =
     scenario_state\<lparr>orders := [scenario_order, scenario_second_order], orders_id_seq := 3\<rparr>"

definition scenario_partly :: state where
  "scenario_partly = snd (OrderService_accept_order scenario_two_orders 1 20 100 [1, 2])"

section \<open>Facts about the reads\<close>

lemma same_store_refl: "same_store s s"
  by (simp add: same_store_def)

lemma CylinderService_get_result:
  "fst (CylinderService_get s cylinder_id) = select_cylinder s cylinder_id"
  by (simp add: CylinderService_get_def split: option.splits sum.splits)

lemma OrderService_get_result:
  "fst (OrderService_get s order_id) = select_order s order_id"
  by (simp add: OrderService_get_def split: option.splits sum.splits)

lemma CylinderService_get_same_store: "same_store s (snd (CylinderService_get s i))"
  by (simp add: CylinderService_get_def same_store_def cache_cylinder_def cache_set_def
      split: option.splits sum.splits)

lemma OrderService_get_same_store: "same_store s (snd (OrderService_get s i))"
  by (simp add: OrderService_get_def same_store_def cache_order_def cache_set_def
      split: option.splits sum.splits)

text \<open>
  Claim C10. Whatever the cache holds, \<^verbatim>\<open>CylinderService.get\<close> and \<^verbatim>\<open>OrderService.get\<close>
  return what the lookup of the id in the store returns: the row is read from the store
  on a hit as on a miss, and the cached copy is never the value handed to the caller.
  The theorem takes any state \<open>s\<close> and replaces its cache by an arbitrary one, \<open>k\<close>; the
  result is the store lookup on \<open>s\<close>, so it is the row as last written.
\<close>

theorem get_reads_the_store:
  "fst (CylinderService_get (s\<lparr>cache := k\<rparr>) cylinder_id) = select_cylinder s cylinder_id
   \<and> fst (OrderService_get (s\<lparr>cache := k\<rparr>) order_id) = select_order s order_id"
  by (simp add: CylinderService_get_def OrderService_get_def select_cylinder_def
      select_order_def split: option.splits sum.splits)

section \<open>Facts about the delivery tracker\<close>

lemma getattrs_delivery_phase:
  "getattrs OrderStatus_members [''ACCEPTED'', ''IN_TRANSIT'', ''OUT_FOR_DELIVERY'']
     = Inl (AttributeError ''OUT_FOR_DELIVERY'')"
  by (simp add: OrderStatus_members_def getattr_def)

text \<open>
  For every order that exists, whatever its status, the tracker's update raises
  \<^verbatim>\<open>AttributeError\<close> while it builds the list of its guard, and the store is as before.
\<close>

lemma tracker_update_raises:
  "select_order s order_id = Inr (Some ord) \<Longrightarrow>
   DeliveryTrackingService_update_delivery_status s order_id update user_id driver_info
     = (Inl (AttributeError ''OUT_FOR_DELIVERY''), s)"
  by (simp add: DeliveryTrackingService_update_delivery_status_def getattrs_delivery_phase
      del: getattrs.simps)

text \<open>
  Claim C5, at the input where the code departs from it. The claim has the tracker's
  \<^verbatim>\<open>update_delivery_status\<close> apply the update when the order is accepted, in transit or
  out for delivery. On the scenario's order, once accepted, the call raises
  \<^verbatim>\<open>AttributeError\<close> instead and writes nothing: \<^verbatim>\<open>OrderStatus\<close> has no member
  \<^verbatim>\<open>OUT_FOR_DELIVERY\<close>, and the guard names it.
\<close>

theorem tracker_update_accepted_order_raises:
  "DeliveryTrackingService_update_delivery_status
     (scenario_state\<lparr>orders := [scenario_order\<lparr>ord_status := OrderStatus.ACCEPTED\<rparr>]\<rparr>) 1
     \<lparr>du_eta = None, du_current_location = Some ''Gate 2'', du_status = ''in_transit'',
      du_notes = None\<rparr> 20 None
   = (Inl (AttributeError ''OUT_FOR_DELIVERY''),
      scenario_state\<lparr>orders := [scenario_order\<lparr>ord_status := OrderStatus.ACCEPTED\<rparr>]\<rparr>)"
  by (simp add: DeliveryTrackingService_update_delivery_status_def getattrs_delivery_phase
      select_order_def scenario_state_def scenario_order_def del: getattrs.simps)

section \<open>Facts about the status log\<close>

text \<open>
  Claim C8, at the input where the code departs from it. The claim has both status
  updates write a \<^verbatim>\<open>status_changed\<close> log row exactly when the status changes. On the
  scenario's first cylinder, which is filled, a bulk update to filled appends a
  \<^verbatim>\<open>status_changed\<close> row whose old and new status are both filled, while the single
  update with the same status appends none.
\<close>

theorem bulk_logs_unchanged_status:
  "cylinder_logs (snd (CylinderService_update_status_bulk scenario_state [1]
      CylinderStatus.FILLED None None (Some 20) None))
   = [\<lparr>cl_cylinder_id = 1, cl_event_type = CylinderEventType.STATUS_CHANGED,
       cl_old_status = Some CylinderStatus.FILLED, cl_new_status = Some CylinderStatus.FILLED,
       cl_order_id = None, cl_location = None, cl_notes = None, cl_created_by = 20\<rparr>]
   \<and> cylinder_logs (snd (CylinderService_update scenario_state 1
      \<lparr>upd_status = Some (Some CylinderStatus.FILLED), upd_location = None,
       upd_is_assigned = None, upd_current_order_id = None\<rparr> 20)) = []"
  by (simp add: CylinderService_update_status_bulk_def CylinderService_update_def
      CylinderService_get_def select_cylinder_def scenario_state_def scenario_cylinder_def
      cache_cylinder_def cache_set_def write_cylinder_def CylinderService_create_log_def
      field_value_def setattrs_def Let_def)

section \<open>Facts about the geo-matcher\<close>

text \<open>
  Claim C6, at the input where the code departs from it. The claim has the distance of a
  point with both coordinates to itself be zero, and be infinite only when a point lacks
  its coordinates. A point on the equator, latitude 0 and longitude 10, has both
  coordinates; \<^verbatim>\<open>all([...])\<close> takes the latitude \<^verbatim>\<open>0.0\<close> for a missing one, and the
  distance of the point to itself is infinite, whatever the float arithmetic is.
\<close>

theorem distance_on_equator:
  "calculate_distance ops
     \<lparr>address = None, latitude = Some 0, longitude = Some 10, loc_notes = None\<rparr>
     \<lparr>address = None, latitude = Some 0, longitude = Some 10, loc_notes = None\<rparr> = Inr PInf"
  by (simp add: calculate_distance_def truthy_def)

text \<open>
  The distance is infinite exactly when one of the four coordinates is missing or zero;
  otherwise the function returns a finite value or raises in \<^verbatim>\<open>math.sqrt\<close>.
\<close>

lemma calculate_distance_infinite:
  "(calculate_distance ops a b = Inr PInf)
     = (\<not> (truthy (latitude a) \<and> truthy (longitude a) \<and> truthy (latitude b)
           \<and> truthy (longitude b)))"
  by (simp add: calculate_distance_def Let_def split: sum.splits)

text \<open>
  Claim C7, at the input where the code departs from it. The claim has
  \<^verbatim>\<open>find_nearby_vendors\<close> return every candidate whose distance to the target is within
  the maximum. A vendor that stands where the target stands, on the equator at longitude
  10, is at distance 0 of it; with a maximum of 50 km the function returns the empty
  list, whatever the float arithmetic is. The defect is that of claim C6: the guard of
  \<^verbatim>\<open>calculate_distance\<close> takes the latitude \<^verbatim>\<open>0.0\<close> for a missing one.
\<close>

theorem find_nearby_vendors_drops_equator_vendor:
  "find_nearby_vendors ops
     \<lparr>address = None, latitude = Some 0, longitude = Some 10, loc_notes = None\<rparr>
     [(7, \<lparr>address = None, latitude = Some 0, longitude = Some 10, loc_notes = None\<rparr>)]
     (Fin 50)
   = Inr []"
  by (simp add: find_nearby_vendors_def calculate_distance_def truthy_def)

text \<open>
  What the function does with the distances it computes. When a computation raises, the
  function raises. When none does, it returns the candidates whose computed distance is
  within the maximum, sorted ascending by that distance, those with equal computed
  distances in the order of the input, and none at infinity for a finite maximum.
\<close>

lemma collect_distances_raises:
  "list_ex (\<lambda>(i, l). isl (calculate_distance ops target l)) vs \<Longrightarrow>
   isl (collect_distances ops target vs m acc)"
proof (induction vs arbitrary: acc)
  case Nil
  then show ?case by simp
next
  case (Cons v vs)
  obtain i l where v: "v = (i, l)" by (cases v)
  show ?case
  proof (cases "calculate_distance ops target l")
    case (Inl e)
    with v show ?thesis by simp
  next
    case (Inr d)
    with v Cons.prems have "list_ex (\<lambda>(i, l). isl (calculate_distance ops target l)) vs"
      by simp
    from Cons.IH [OF this] v Inr show ?thesis by simp
  qed
qed

lemma collect_distances_acc:
  "list_all (\<lambda>(i, l). \<not> isl (calculate_distance ops target l)) vs \<Longrightarrow>
   collect_distances ops target vs m acc = Inr (acc @ computed_within ops target vs m)"
proof (induction vs arbitrary: acc)
  case Nil
  then show ?case by (simp add: computed_within_def computed_distances_def)
next
  case (Cons v vs)
  obtain i l where v: "v = (i, l)" by (cases v)
  from Cons.prems v obtain d where d: "calculate_distance ops target l = Inr d"
    by (cases "calculate_distance ops target l") simp_all
  from Cons.prems have "list_all (\<lambda>(i, l). \<not> isl (calculate_distance ops target l)) vs"
    by simp
  from Cons.IH [OF this] v d show ?case
    by (simp add: computed_within_def computed_distances_def)
qed

lemma find_nearby_vendors_raises:
  "list_ex (\<lambda>(i, l). isl (calculate_distance ops target l)) vs \<Longrightarrow>
   isl (find_nearby_vendors ops target vs m)"
  using collect_distances_raises [of ops target vs m "[]"]
  by (auto simp: find_nearby_vendors_def split: sum.splits)

lemma find_nearby_vendors_sort:
  "list_all (\<lambda>(i, l). \<not> isl (calculate_distance ops target l)) vs \<Longrightarrow>
   find_nearby_vendors ops target vs m = Inr (sort_key snd (computed_within ops target vs m))"
  by (simp add: find_nearby_vendors_def collect_distances_acc)

lemma find_nearby_vendors_ranks_computed:
  assumes "list_all (\<lambda>(i, l). \<not> isl (calculate_distance ops target l)) vs"
  shows "\<exists>r. find_nearby_vendors ops target vs (Fin m) = Inr r
    \<and> mset r = mset (computed_within ops target vs (Fin m))
    \<and> sorted (map snd r)
    \<and> (\<forall>d. filter (\<lambda>p. snd p = d) r
            = filter (\<lambda>p. snd p = d) (computed_within ops target vs (Fin m)))
    \<and> PInf \<notin> snd ` set r"
proof -
  have "PInf \<notin> snd ` set (computed_within ops target vs (Fin m))"
    by (auto simp: computed_within_def)
  then show ?thesis
    by (simp add: find_nearby_vendors_sort [OF assms] sort_key_stable)
qed

section \<open>Facts about rows and primary keys\<close>

lemma scalar_one_or_none_Some: "(scalar_one_or_none xs = Inr (Some x)) = (xs = [x])"
  by (cases xs rule: scalar_one_or_none.cases) auto

lemma scalar_one_or_none_None: "(scalar_one_or_none xs = Inr None) = (xs = [])"
  by (cases xs rule: scalar_one_or_none.cases) auto

lemma filter_key_unique:
  "distinct (map f xs) \<Longrightarrow> x \<in> set xs \<Longrightarrow> filter (\<lambda>c. f c = f x) xs = [x]"
  by (induction xs) (auto simp: filter_empty_conv image_iff)

lemma filter_key_cases:
  assumes "distinct (map f xs)"
  shows "filter (\<lambda>c. f c = i) xs = [] \<and> i \<notin> f ` set xs
         \<or> (\<exists>x \<in> set xs. f x = i \<and> filter (\<lambda>c. f c = i) xs = [x])"
proof (cases "i \<in> f ` set xs")
  case True
  then obtain x where "x \<in> set xs" "f x = i" by auto
  with filter_key_unique [OF assms, of x] show ?thesis by auto
next
  case False
  then have "filter (\<lambda>c. f c = i) xs = []" by (auto simp: filter_empty_conv)
  with False show ?thesis by simp
qed

lemma CylinderService_get_pair:
  "\<exists>s1. CylinderService_get s i = (select_cylinder s i, s1) \<and> same_store s s1"
  by (metis CylinderService_get_result CylinderService_get_same_store prod.collapse)

lemma OrderService_get_pair:
  "\<exists>s1. OrderService_get s i = (select_order s i, s1) \<and> same_store s s1"
  by (metis OrderService_get_result OrderService_get_same_store prod.collapse)

lemma cyl_id_with_status [simp]: "cyl_id (with_status st loc c) = cyl_id c"
  by (simp add: with_status_def)

lemma with_status_idem [simp]:
  "with_status st loc (with_status st loc c) = with_status st loc c"
  by (cases loc) (simp_all add: with_status_def)

lemma cylinders_cache_cylinder [simp]: "cylinders (cache_cylinder s c) = cylinders s"
  by (simp add: cache_cylinder_def cache_set_def)

lemma cylinders_create_log [simp]: "cylinders (CylinderService_create_log s l) = cylinders s"
  by (simp add: CylinderService_create_log_def)

lemma cylinders_write_cylinder:
  "cylinders (write_cylinder s c') = map (\<lambda>c. if cyl_id c = cyl_id c' then c' else c) (cylinders s)"
  by (simp add: write_cylinder_def)

section \<open>Facts about the bulk status update\<close>

lemma bulk_loop_result:
  "distinct (map cyl_id (cylinders s)) \<Longrightarrow>
   \<exists>s'. update_status_bulk_loop s ids st loc notes (Some uid) oid acc
          = (Inr (acc @ concat (map (\<lambda>i. map (with_status st loc)
                                         (filter (\<lambda>c. cyl_id c = i) (cylinders s))) ids)), s')
        \<and> cylinders s'
          = map (\<lambda>c. if cyl_id c \<in> set ids then with_status st loc c else c) (cylinders s)"
proof (induction ids arbitrary: s acc)
  case Nil
  then show ?case by simp
next
  case (Cons i ids)
  obtain s1 where g: "CylinderService_get s i = (select_cylinder s i, s1)"
    and st1: "same_store s s1"
    using CylinderService_get_pair by blast
  from st1 have c1: "cylinders s1 = cylinders s" by (simp add: same_store_def)
  from filter_key_cases [OF Cons.prems, of i]
  show ?case
  proof
    assume a: "filter (\<lambda>c. cyl_id c = i) (cylinders s) = [] \<and> i \<notin> cyl_id ` set (cylinders s)"
    then have sel: "select_cylinder s i = Inr None" by (simp add: select_cylinder_def)
    from Cons.prems c1 have "distinct (map cyl_id (cylinders s1))" by simp
    from Cons.IH [OF this, of acc] obtain s' where
      r: "update_status_bulk_loop s1 ids st loc notes (Some uid) oid acc
          = (Inr (acc @ concat (map (\<lambda>i. map (with_status st loc)
                                         (filter (\<lambda>c. cyl_id c = i) (cylinders s1))) ids)), s')"
      and cs: "cylinders s'
          = map (\<lambda>c. if cyl_id c \<in> set ids then with_status st loc c else c) (cylinders s1)"
      by blast
    from a have "map (\<lambda>c. if cyl_id c \<in> set ids then with_status st loc c else c) (cylinders s)
               = map (\<lambda>c. if cyl_id c \<in> set (i # ids) then with_status st loc c else c) (cylinders s)"
      by (intro map_cong) auto
    with r cs c1 a g sel show ?thesis by simp
  next
    assume "\<exists>x \<in> set (cylinders s). cyl_id x = i \<and> filter (\<lambda>c. cyl_id c = i) (cylinders s) = [x]"
    then obtain x where x: "x \<in> set (cylinders s)" "cyl_id x = i"
      and f: "filter (\<lambda>c. cyl_id c = i) (cylinders s) = [x]" by blast
    then have sel: "select_cylinder s i = Inr (Some x)" by (simp add: select_cylinder_def)
    let ?x' = "with_status st loc x"
    let ?log = "\<lparr>cl_cylinder_id = cyl_id ?x',
                 cl_event_type = CylinderEventType.STATUS_CHANGED,
                 cl_old_status = Some (cyl_status x), cl_new_status = Some st,
                 cl_order_id = oid, cl_location = loc, cl_notes = notes, cl_created_by = uid\<rparr>"
    let ?s3 = "cache_cylinder (CylinderService_create_log (write_cylinder s1 ?x') ?log) ?x'"
    let ?f = "\<lambda>c. if cyl_id c = i then with_status st loc c else c"
    have uniq: "\<forall>c \<in> set (cylinders s). cyl_id c = i \<longrightarrow> c = x"
    proof (intro ballI impI)
      fix c assume "c \<in> set (cylinders s)" "cyl_id c = i"
      then have "c \<in> set (filter (\<lambda>c. cyl_id c = i) (cylinders s))" by simp
      then show "c = x" by (simp only: f) simp
    qed
    have "cylinders ?s3 = map (\<lambda>c. if cyl_id c = i then ?x' else c) (cylinders s)"
      by (simp add: cylinders_write_cylinder c1 x)
    also have "\<dots> = map ?f (cylinders s)"
      by (rule map_cong) (use uniq in auto)
    finally have c3: "cylinders ?s3 = map ?f (cylinders s)" .
    have idf: "\<And>c. cyl_id (?f c) = cyl_id c" by simp
    have wsf: "\<And>c. with_status st loc (?f c) = with_status st loc c" by simp
    have "map cyl_id (map ?f (cylinders s)) = map cyl_id (cylinders s)"
      by (simp only: map_map o_def idf)
    with Cons.prems have d3: "distinct (map cyl_id (cylinders ?s3))"
      by (simp only: c3)
    from Cons.IH [OF d3, of "acc @ [?x']"] obtain s' where
      r: "update_status_bulk_loop ?s3 ids st loc notes (Some uid) oid (acc @ [?x'])
          = (Inr ((acc @ [?x']) @ concat (map (\<lambda>i. map (with_status st loc)
                                         (filter (\<lambda>c. cyl_id c = i) (cylinders ?s3))) ids)), s')"
      and cs: "cylinders s'
          = map (\<lambda>c. if cyl_id c \<in> set ids then with_status st loc c else c) (cylinders ?s3)"
      by blast
    have step: "update_status_bulk_loop s (i # ids) st loc notes (Some uid) oid acc
        = update_status_bulk_loop ?s3 ids st loc notes (Some uid) oid (acc @ [?x'])"
      using g sel by (simp add: with_status_def Let_def)
    have rows: "\<And>j. map (with_status st loc) (filter (\<lambda>c. cyl_id c = j) (cylinders ?s3))
                   = map (with_status st loc) (filter (\<lambda>c. cyl_id c = j) (cylinders s))"
      by (simp only: c3 filter_map o_def idf map_map wsf)
    have "\<And>c. (if cyl_id (?f c) \<in> set ids then with_status st loc (?f c) else ?f c)
               = (if cyl_id c \<in> set (i # ids) then with_status st loc c else c)"
      by simp
    then have fin: "map (\<lambda>c. if cyl_id c \<in> set ids then with_status st loc c else c) (cylinders ?s3)
             = map (\<lambda>c. if cyl_id c \<in> set (i # ids) then with_status st loc c else c) (cylinders s)"
      by (simp only: c3 map_map o_def)
    show ?thesis
      unfolding step using r cs by (simp only: rows fin) (simp add: f)
  qed
qed

text \<open>
  Claim C9. On a store whose cylinder ids are unique, for every list of ids and an actor,
  \<^verbatim>\<open>update_status_bulk\<close> does not raise; it returns, in the order of the ids, the cylinder
  of each id that resolves with the new status (and the location, when one is given)
  applied, and nothing for an id that does not resolve; in the store the cylinders named
  by the ids carry the new status and the others are as before. The witness is the
  scenario with ids 1, 99 and 3: the two cylinders 1 and 3 come back, emptied.
\<close>

theorem update_status_bulk_skips_unresolved:
  assumes "cylinder_ids_unique s"
  shows "\<exists>s'. CylinderService_update_status_bulk s cylinder_ids new_status location notes
                 (Some user_id) order_id
               = (Inr (concat (map (\<lambda>i. map (with_status new_status location)
                                         (filter (\<lambda>c. cyl_id c = i) (cylinders s)))
                                cylinder_ids)), s')
             \<and> cylinders s'
               = map (\<lambda>c. if cyl_id c \<in> set cylinder_ids
                          then with_status new_status location c else c) (cylinders s)"
  using bulk_loop_result [of s cylinder_ids new_status location "notes" user_id order_id "[]"] assms
  by (simp add: CylinderService_update_status_bulk_def cylinder_ids_unique_def)

theorem update_status_bulk_skips_unresolved_witness:
  "cylinder_ids_unique scenario_state
   \<and> fst (CylinderService_update_status_bulk scenario_state [1, 99, 3] CylinderStatus.EMPTY
            None None (Some 20) None)
     = Inr [(scenario_cylinder 1 ''A'')\<lparr>cyl_status := CylinderStatus.EMPTY\<rparr>,
            (scenario_cylinder 3 ''C'')\<lparr>cyl_status := CylinderStatus.EMPTY\<rparr>]"
proof -
  have u: "cylinder_ids_unique scenario_state"
    by (simp add: cylinder_ids_unique_def scenario_state_def scenario_cylinder_def)
  from update_status_bulk_skips_unresolved [OF u, of "[1, 99, 3]" CylinderStatus.EMPTY None None 20 None]
  obtain s' where "CylinderService_update_status_bulk scenario_state [1, 99, 3]
      CylinderStatus.EMPTY None None (Some 20) None
    = (Inr (concat (map (\<lambda>i. map (with_status CylinderStatus.EMPTY None)
                                         (filter (\<lambda>c. cyl_id c = i) (cylinders scenario_state)))
                                [1, 99, 3])), s')"
    by blast
  then show ?thesis using u
    by (simp add: scenario_state_def scenario_cylinder_def with_status_def)
qed

section \<open>Facts about acceptance\<close>

lemma same_store_available:
  "same_store s s1 \<Longrightarrow> available_cylinders s1 ids v = available_cylinders s ids v"
  by (simp add: same_store_def available_cylinders_def)

lemma same_store_cache_order: "same_store s s1 \<Longrightarrow> same_store s (cache_order s1 ord)"
  by (simp add: same_store_def cache_order_def cache_set_def)

lemma accept_order_not_pending:
  assumes "select_order s order_id = Inr (Some ord)" "ord_status ord \<noteq> OrderStatus.PENDING"
  shows "fst (OrderService_accept_order s order_id vendor_id expected ids)
         = Inl (HTTPException 400 ''Order cannot be accepted'')"
proof -
  obtain s1 where "OrderService_get s order_id = (select_order s order_id, s1)"
    using OrderService_get_pair by blast
  with assms show ?thesis
    by (simp add: OrderService_accept_order_def)
qed

lemma accept_order_unavailable:
  assumes "select_order s order_id = Inr (Some ord)" "ord_status ord = OrderStatus.PENDING"
    "length (available_cylinders s ids vendor_id) \<noteq> length ids"
  shows "fst (OrderService_accept_order s order_id vendor_id expected ids)
         = Inl (HTTPException 400 ''Some cylinders are not available'')"
proof -
  obtain s1 where "OrderService_get s order_id = (select_order s order_id, s1)"
    and "same_store s s1"
    using OrderService_get_pair by blast
  with assms show ?thesis
    by (simp add: OrderService_accept_order_def same_store_available Let_def)
qed

lemma accept_order_unavailable_fails:
  assumes "length (available_cylinders s ids vendor_id) \<noteq> length ids"
  shows "\<exists>e. fst (OrderService_accept_order s order_id vendor_id expected ids) = Inl e"
proof -
  obtain s1 where "OrderService_get s order_id = (select_order s order_id, s1)"
    and "same_store s s1"
    using OrderService_get_pair by blast
  with assms show ?thesis
    by (simp add: OrderService_accept_order_def same_store_available Let_def
        split: sum.splits option.splits)
qed

lemma accept_order_failure_same_store:
  assumes "fst (OrderService_accept_order s order_id vendor_id expected ids) = Inl e"
  shows "same_store s (snd (OrderService_accept_order s order_id vendor_id expected ids))"
proof -
  obtain s1 where "OrderService_get s order_id = (select_order s order_id, s1)"
    and "same_store s s1"
    using OrderService_get_pair by blast
  with assms show ?thesis
    by (simp add: OrderService_accept_order_def Let_def
        split: sum.splits option.splits if_splits)
qed

text \<open>
  Claim C2. \<^verbatim>\<open>accept_order\<close> on an order that exists and is not pending fails with the
  400 error "Order cannot be accepted"; whenever the query for the requested cylinders
  returns a number of rows other than the number of requested ids, the acceptance
  fails, on a pending order with the 400 error "Some cylinders are not available"; and
  whenever the call fails, the store after it is the store before it: no order log row,
  no change of the order row, no change of any cylinder. Only the cache may have taken
  the order that was read.
\<close>

theorem accept_order_failure_is_atomic:
  "(select_order s order_id = Inr (Some ord) \<and> ord_status ord \<noteq> OrderStatus.PENDING
      \<longrightarrow> fst (OrderService_accept_order s order_id vendor_id expected ids)
            = Inl (HTTPException 400 ''Order cannot be accepted''))
   \<and> (length (available_cylinders s ids vendor_id) \<noteq> length ids
      \<longrightarrow> (\<exists>e. fst (OrderService_accept_order s order_id vendor_id expected ids) = Inl e))
   \<and> (select_order s order_id = Inr (Some ord) \<and> ord_status ord = OrderStatus.PENDING
       \<and> length (available_cylinders s ids vendor_id) \<noteq> length ids
      \<longrightarrow> fst (OrderService_accept_order s order_id vendor_id expected ids)
            = Inl (HTTPException 400 ''Some cylinders are not available''))
   \<and> (\<forall>e. fst (OrderService_accept_order s order_id vendor_id expected ids) = Inl e
      \<longrightarrow> same_store s (snd (OrderService_accept_order s order_id vendor_id expected ids)))"
proof (intro conjI impI allI)
  assume "select_order s order_id = Inr (Some ord) \<and> ord_status ord \<noteq> OrderStatus.PENDING"
  then show "fst (OrderService_accept_order s order_id vendor_id expected ids)
             = Inl (HTTPException 400 ''Order cannot be accepted'')"
    by (simp add: accept_order_not_pending)
next
  assume "length (available_cylinders s ids vendor_id) \<noteq> length ids"
  then show "\<exists>e. fst (OrderService_accept_order s order_id vendor_id expected ids) = Inl e"
    by (rule accept_order_unavailable_fails)
next
  assume "select_order s order_id = Inr (Some ord) \<and> ord_status ord = OrderStatus.PENDING
          \<and> length (available_cylinders s ids vendor_id) \<noteq> length ids"
  then show "fst (OrderService_accept_order s order_id vendor_id expected ids)
             = Inl (HTTPException 400 ''Some cylinders are not available'')"
    by (simp add: accept_order_unavailable)
next
  fix e
  assume "fst (OrderService_accept_order s order_id vendor_id expected ids) = Inl e"
  then show "same_store s (snd (OrderService_accept_order s order_id vendor_id expected ids))"
    by (rule accept_order_failure_same_store)
qed

theorem accept_order_failure_is_atomic_witness:
  "fst (OrderService_accept_order
          (scenario_state\<lparr>orders := [scenario_order\<lparr>ord_status := OrderStatus.ACCEPTED\<rparr>]\<rparr>)
          1 20 100 [1, 2, 3])
     = Inl (HTTPException 400 ''Order cannot be accepted'')
   \<and> same_store (scenario_state\<lparr>orders := [scenario_order\<lparr>ord_status := OrderStatus.ACCEPTED\<rparr>]\<rparr>)
       (snd (OrderService_accept_order
          (scenario_state\<lparr>orders := [scenario_order\<lparr>ord_status := OrderStatus.ACCEPTED\<rparr>]\<rparr>)
          1 20 100 [1, 2, 3]))
   \<and> fst (OrderService_accept_order scenario_state 1 20 100 [1, 99])
     = Inl (HTTPException 400 ''Some cylinders are not available'')
   \<and> same_store scenario_state (snd (OrderService_accept_order scenario_state 1 20 100 [1, 99]))"
proof -
  let ?s = "scenario_state\<lparr>orders := [scenario_order\<lparr>ord_status := OrderStatus.ACCEPTED\<rparr>]\<rparr>"
  have a: "select_order ?s 1 = Inr (Some (scenario_order\<lparr>ord_status := OrderStatus.ACCEPTED\<rparr>))"
    "ord_status (scenario_order\<lparr>ord_status := OrderStatus.ACCEPTED\<rparr>) \<noteq> OrderStatus.PENDING"
    by (simp_all add: select_order_def scenario_state_def scenario_order_def)
  have b: "select_order scenario_state 1 = Inr (Some scenario_order)"
    "ord_status scenario_order = OrderStatus.PENDING"
    "length (available_cylinders scenario_state [1, 99] 20) \<noteq> length [1, 99 :: int]"
    by (simp_all add: select_order_def scenario_state_def scenario_order_def
        available_cylinders_def scenario_cylinder_def)
  from accept_order_failure_is_atomic [of ?s 1 "scenario_order\<lparr>ord_status := OrderStatus.ACCEPTED\<rparr>" 20 100 "[1, 2, 3]"] a
  have 1: "fst (OrderService_accept_order ?s 1 20 100 [1, 2, 3])
             = Inl (HTTPException 400 ''Order cannot be accepted'')"
    and 2: "same_store ?s (snd (OrderService_accept_order ?s 1 20 100 [1, 2, 3]))"
    by simp_all
  from accept_order_failure_is_atomic [of scenario_state 1 scenario_order 20 100 "[1, 99]"] b
  have 3: "fst (OrderService_accept_order scenario_state 1 20 100 [1, 99])
     = Inl (HTTPException 400 ''Some cylinders are not available'')"
    and 4: "same_store scenario_state (snd (OrderService_accept_order scenario_state 1 20 100 [1, 99]))"
    by simp_all
  from 1 2 3 4 show ?thesis by simp
qed

section \<open>Facts about the assignment loop\<close>

lemma fold_write_rows:
  assumes "distinct (map cyl_id cs)" "set ts \<subseteq> set cs" "\<And>c. cyl_id (g c) = cyl_id c"
  shows "fold (\<lambda>t xs. map (\<lambda>c. if cyl_id c = cyl_id t then g t else c) xs) ts cs
         = map (\<lambda>c. if c \<in> set ts then g c else c) cs"
  using assms(2)
proof (induction ts rule: rev_induct)
  case Nil
  then show ?case by simp
next
  case (snoc t ts)
  then have IH: "fold (\<lambda>t xs. map (\<lambda>c. if cyl_id c = cyl_id t then g t else c) xs) ts cs
         = map (\<lambda>c. if c \<in> set ts then g c else c) cs"
    and t: "t \<in> set cs" by simp_all
  have key: "\<And>c. c \<in> set cs \<Longrightarrow> (cyl_id c = cyl_id t) = (c = t)"
    using assms(1) t by (auto simp: distinct_map inj_on_def)
  have "\<And>c. c \<in> set cs \<Longrightarrow>
          (if cyl_id (if c \<in> set ts then g c else c) = cyl_id t then g t
           else (if c \<in> set ts then g c else c))
        = (if c \<in> set (ts @ [t]) then g c else c)"
    using key assms(3) by auto
  then show ?case
    by (simp only: fold_append fold_simps o_apply IH map_map o_def cong: map_cong)
qed

lemma filter_write_row:
  "f r = k \<Longrightarrow>
   filter (\<lambda>x. f x = k) (map (\<lambda>x. if f x = k then r else x) xs)
   = map (\<lambda>x. r) (filter (\<lambda>x. f x = k) xs)"
  by (induction xs) auto

lemma assign_cylinder_alt:
  "assign_cylinder oid c s
   = (write_cylinder s (assigned_to oid c))
       \<lparr>order_cylinders := insert (oid, cyl_id c) (order_cylinders s)\<rparr>"
  by (simp add: assign_cylinder_def assigned_to_def)

lemma cyl_id_assigned_to [simp]: "cyl_id (assigned_to oid c) = cyl_id c"
  by (simp add: assigned_to_def)

lemma cylinders_fold_assign:
  "cylinders (fold (assign_cylinder oid) ts st)
   = fold (\<lambda>t xs. map (\<lambda>c. if cyl_id c = cyl_id t then assigned_to oid t else c) xs) ts
       (cylinders st)"
  by (induction ts arbitrary: st)
     (simp_all add: assign_cylinder_alt write_cylinder_def)

lemma order_cylinders_fold_assign:
  "order_cylinders (fold (assign_cylinder oid) ts st)
   = order_cylinders st \<union> (\<lambda>c. (oid, cyl_id c)) ` set ts"
  by (induction ts arbitrary: st)
     (auto simp: assign_cylinder_def write_cylinder_def)

lemma fold_assign_other_fields:
  "orders (fold (assign_cylinder oid) ts st) = orders st
   \<and> order_logs (fold (assign_cylinder oid) ts st) = order_logs st
   \<and> cylinder_logs (fold (assign_cylinder oid) ts st) = cylinder_logs st
   \<and> cylinders_id_seq (fold (assign_cylinder oid) ts st) = cylinders_id_seq st
   \<and> orders_id_seq (fold (assign_cylinder oid) ts st) = orders_id_seq st"
  by (induction ts arbitrary: st)
     (simp_all add: assign_cylinder_def write_cylinder_def)

lemma available_cylinders_alt:
  "available_cylinders s ids v
   = filter (\<lambda>c. cyl_id c \<in> set ids \<and> is_available v c) (cylinders s)"
  by (simp add: available_cylinders_def is_available_def)

lemma available_count:
  assumes d: "distinct (map cyl_id cs)"
    and l: "length (filter (\<lambda>c. cyl_id c \<in> set ids \<and> Q c) cs) = length ids"
  shows "cyl_id ` set (filter (\<lambda>c. cyl_id c \<in> set ids \<and> Q c) cs) = set ids"
proof -
  let ?F = "filter (\<lambda>c. cyl_id c \<in> set ids \<and> Q c) cs"
  from d have "distinct (map cyl_id ?F)" by (rule distinct_map_filter)
  then have "card (set (map cyl_id ?F)) = length (map cyl_id ?F)" by (rule distinct_card)
  then have "card (cyl_id ` set ?F) = length ?F" by (simp only: set_map length_map)
  with l have c: "card (cyl_id ` set ?F) = length ids" by (simp only:)
  have sub: "cyl_id ` set ?F \<subseteq> set ids" by auto
  have "card (set ids) \<le> length ids" by (rule card_length)
  with c have le: "card (set ids) \<le> card (cyl_id ` set ?F)" by (simp only:)
  show ?thesis by (rule card_seteq [OF finite_set sub le])
qed

lemma accept_order_success_cases:
  assumes r: "OrderService_accept_order s order_id vendor_id expected ids = (Inr ord', s')"
    and g: "OrderService_get s order_id = (select_order s order_id, s1)"
  shows "\<exists>ord. select_order s order_id = Inr (Some ord) \<and> ord_status ord = OrderStatus.PENDING
     \<and> length (available_cylinders s1 ids vendor_id) = length ids"
proof (cases "select_order s order_id")
  case (Inl e)
  with r g show ?thesis by (simp add: OrderService_accept_order_def)
next
  case (Inr res)
  show ?thesis
  proof (cases res)
    case None
    with Inr r g show ?thesis by (simp add: OrderService_accept_order_def)
  next
    case (Some ord)
    show ?thesis
    proof (rule ccontr)
      assume "\<not> ?thesis"
      with Some Inr have "ord_status ord \<noteq> OrderStatus.PENDING
          \<or> length (available_cylinders s1 ids vendor_id) \<noteq> length ids" by simp
      with Some Inr g have "\<exists>e s2. OrderService_accept_order s order_id vendor_id expected ids = (Inl e, s2)"
        by (auto simp add: OrderService_accept_order_def Let_def)
      with r show False by simp
    qed
  qed
qed

lemma accept_order_success:
  assumes u: "cylinder_ids_unique s"
    and r: "OrderService_accept_order s order_id vendor_id expected ids = (Inr ord', s')"
  shows "(\<forall>i \<in> set ids. \<exists>c \<in> set (cylinders s). cyl_id c = i \<and> is_available vendor_id c)
    \<and> cylinders s'
        = map (\<lambda>c. if cyl_id c \<in> set ids then assigned_to order_id c else c) (cylinders s)
    \<and> order_cylinders s' = order_cylinders s \<union> (\<lambda>i. (order_id, i)) ` set ids
    \<and> ord_status ord' = OrderStatus.ACCEPTED \<and> ord_vendor_id ord' = Some vendor_id
    \<and> expected_delivery ord' = Some expected
    \<and> select_order s' order_id = Inr (Some ord')
    \<and> order_logs s' = order_logs s @
         [\<lparr>ol_order_id = order_id, ol_event_type = OrderEventType.VENDOR_ASSIGNED,
           ol_old_status = Some OrderStatus.PENDING, ol_new_status = Some OrderStatus.ACCEPTED,
           ol_details = Some (AcceptDetails ids expected), ol_notes = None,
           ol_created_by = vendor_id\<rparr>]"
proof -
  obtain s1 where g: "OrderService_get s order_id = (select_order s order_id, s1)"
    and st: "same_store s s1"
    using OrderService_get_pair by blast
  let ?F = "filter (\<lambda>c. cyl_id c \<in> set ids \<and> is_available vendor_id c) (cylinders s)"
  from st have av: "available_cylinders s1 ids vendor_id = ?F"
    by (simp add: available_cylinders_alt same_store_def)
  from accept_order_success_cases [OF r g] av
  obtain ord where sel: "select_order s order_id = Inr (Some ord)"
    and pend: "ord_status ord = OrderStatus.PENDING"
    and len: "length ?F = length ids"
    by auto
  let ?ord' = "ord\<lparr>ord_vendor_id := Some vendor_id, ord_status := OrderStatus.ACCEPTED,
                    expected_delivery := Some expected\<rparr>"
  let ?s2 = "fold (assign_cylinder order_id) ?F (write_order s1 ?ord')"
  let ?log = "\<lparr>ol_order_id = ord_id ?ord', ol_event_type = OrderEventType.VENDOR_ASSIGNED,
           ol_old_status = Some OrderStatus.PENDING, ol_new_status = Some OrderStatus.ACCEPTED,
           ol_details = Some (AcceptDetails ids expected), ol_notes = None,
           ol_created_by = vendor_id\<rparr>"
  have "OrderService_accept_order s order_id vendor_id expected ids
        = (Inr ?ord', cache_order (OrderService_create_log ?s2 ?log) ?ord')"
    using g av sel pend len by (simp add: OrderService_accept_order_def Let_def)
  from trans [OF r [symmetric] this]
  have "(Inr ord' :: error + Order, s')
        = (Inr ?ord', cache_order (OrderService_create_log ?s2 ?log) ?ord')" .
  then have "Inr ord' = (Inr ?ord' :: error + Order)"
    and s': "s' = cache_order (OrderService_create_log ?s2 ?log) ?ord'"
    by (simp_all only: prod.inject)
  then have ord': "ord' = ?ord'"
    by (simp only: sum.inject)
  from u have d: "distinct (map cyl_id (cylinders s))" by (simp add: cylinder_ids_unique_def)
  from available_count [OF d len] have img: "cyl_id ` set ?F = set ids" .
  have all: "\<forall>i \<in> set ids. \<exists>c \<in> set (cylinders s). cyl_id c = i \<and> is_available vendor_id c"
  proof
    fix i assume "i \<in> set ids"
    with img have "i \<in> cyl_id ` set ?F" by simp
    then show "\<exists>c \<in> set (cylinders s). cyl_id c = i \<and> is_available vendor_id c" by auto
  qed
  have mem: "\<And>c. c \<in> set (cylinders s) \<Longrightarrow> (c \<in> set ?F) = (cyl_id c \<in> set ids)"
  proof -
    fix c assume c: "c \<in> set (cylinders s)"
    show "(c \<in> set ?F) = (cyl_id c \<in> set ids)"
    proof
      assume "c \<in> set ?F" then show "cyl_id c \<in> set ids" by simp
    next
      assume "cyl_id c \<in> set ids"
      with all obtain c' where c': "c' \<in> set (cylinders s)" "cyl_id c' = cyl_id c"
        "is_available vendor_id c'" by auto
      with d c have "c' = c" by (auto simp: distinct_map inj_on_def)
      with c' c \<open>cyl_id c \<in> set ids\<close> show "c \<in> set ?F" by simp
    qed
  qed
  from st have cs1: "cylinders (write_order s1 ?ord') = cylinders s"
    by (simp add: write_order_def same_store_def)
  have "cylinders ?s2 = map (\<lambda>c. if c \<in> set ?F then assigned_to order_id c else c) (cylinders s)"
    unfolding cylinders_fold_assign cs1
    by (rule fold_write_rows [OF d]) auto
  also have "\<dots> = map (\<lambda>c. if cyl_id c \<in> set ids then assigned_to order_id c else c) (cylinders s)"
    by (rule map_cong [OF refl]) (simp only: mem)
  finally have cyl: "cylinders s'
        = map (\<lambda>c. if cyl_id c \<in> set ids then assigned_to order_id c else c) (cylinders s)"
    by (simp add: s' cache_order_def cache_set_def OrderService_create_log_def)
  have "(\<lambda>c. (order_id, cyl_id c)) ` set ?F = (\<lambda>i. (order_id, i)) ` (cyl_id ` set ?F)"
    by (simp only: image_image)
  with img st have oc: "order_cylinders s' = order_cylinders s \<union> (\<lambda>i. (order_id, i)) ` set ids"
    by (simp add: s' cache_order_def cache_set_def OrderService_create_log_def
        order_cylinders_fold_assign write_order_def same_store_def)
  from sel have f: "filter (\<lambda>x. ord_id x = order_id) (orders s) = [ord]"
    by (simp add: select_order_def scalar_one_or_none_Some)
  then have "ord \<in> set (filter (\<lambda>x. ord_id x = order_id) (orders s))" by simp
  then have oid: "ord_id ord = order_id" by simp
  have "filter (\<lambda>x. ord_id x = order_id)
          (map (\<lambda>x. if ord_id x = ord_id ?ord' then ?ord' else x) (orders s))
        = map (\<lambda>x. ?ord') (filter (\<lambda>x. ord_id x = order_id) (orders s))"
    using filter_write_row [of ord_id ?ord' order_id "orders s"] by (simp add: oid)
  then have sel': "select_order s' order_id = Inr (Some ?ord')"
    using st
    by (simp add: s' select_order_def cache_order_def cache_set_def OrderService_create_log_def
        fold_assign_other_fields write_order_def same_store_def f)
  from st have logs: "order_logs s' = order_logs s @ [?log]"
    by (simp add: s' cache_order_def cache_set_def OrderService_create_log_def
        fold_assign_other_fields write_order_def same_store_def)
  from all cyl oc sel' logs show ?thesis
    by (simp add: ord' oid)
qed

lemma accept_order_missing_cylinder:
  assumes u: "cylinder_ids_unique s"
    and m: "\<exists>i \<in> set ids. \<not> (\<exists>c \<in> set (cylinders s). cyl_id c = i \<and> is_available vendor_id c)"
  shows "length (available_cylinders s ids vendor_id) \<noteq> length ids"
proof
  assume l: "length (available_cylinders s ids vendor_id) = length ids"
  from u have d: "distinct (map cyl_id (cylinders s))" by (simp add: cylinder_ids_unique_def)
  from l have "length (filter (\<lambda>c. cyl_id c \<in> set ids \<and> is_available vendor_id c) (cylinders s))
      = length ids"
    by (simp only: available_cylinders_alt)
  from available_count [OF d this]
  have img: "cyl_id ` set (filter (\<lambda>c. cyl_id c \<in> set ids \<and> is_available vendor_id c) (cylinders s))
    = set ids" .
  from m obtain i where i: "i \<in> set ids"
    and no: "\<not> (\<exists>c \<in> set (cylinders s). cyl_id c = i \<and> is_available vendor_id c)" by blast
  from i img have "i \<in> cyl_id ` set (filter (\<lambda>c. cyl_id c \<in> set ids \<and> is_available vendor_id c) (cylinders s))"
    by (simp only:)
  then have "\<exists>c \<in> set (cylinders s). cyl_id c = i \<and> is_available vendor_id c" by auto
  with no show False by simp
qed

text \<open>
  Claim C1. On a store whose cylinder ids are unique: whenever \<^verbatim>\<open>accept_order\<close> succeeds,
  every requested id is the id of a cylinder that belonged to the vendor, was filled and
  was not assigned; afterwards exactly the cylinders with a requested id are flagged
  assigned and linked to the order (and are in the order's cylinder set), the order
  returned and stored is accepted with the vendor and the expected delivery set, and
  exactly one \<^verbatim>\<open>vendor_assigned\<close> row for the order was appended to the order log. If some
  requested id is not the id of such a cylinder, the call fails and the store, cylinders
  included, is as it was.
\<close>

theorem accept_order_reserves_all_or_nothing:
  assumes "cylinder_ids_unique s"
  shows "(\<forall>ord' s'. OrderService_accept_order s order_id vendor_id expected ids = (Inr ord', s')
      \<longrightarrow> (\<forall>i \<in> set ids. \<exists>c \<in> set (cylinders s). cyl_id c = i \<and> is_available vendor_id c)
        \<and> cylinders s'
            = map (\<lambda>c. if cyl_id c \<in> set ids then assigned_to order_id c else c) (cylinders s)
        \<and> order_cylinders s' = order_cylinders s \<union> (\<lambda>i. (order_id, i)) ` set ids
        \<and> ord_status ord' = OrderStatus.ACCEPTED \<and> ord_vendor_id ord' = Some vendor_id
        \<and> expected_delivery ord' = Some expected
        \<and> select_order s' order_id = Inr (Some ord')
        \<and> order_logs s' = order_logs s @
             [\<lparr>ol_order_id = order_id, ol_event_type = OrderEventType.VENDOR_ASSIGNED,
               ol_old_status = Some OrderStatus.PENDING,
               ol_new_status = Some OrderStatus.ACCEPTED,
               ol_details = Some (AcceptDetails ids expected), ol_notes = None,
               ol_created_by = vendor_id\<rparr>])
    \<and> ((\<exists>i \<in> set ids. \<not> (\<exists>c \<in> set (cylinders s). cyl_id c = i \<and> is_available vendor_id c))
      \<longrightarrow> (\<exists>e. fst (OrderService_accept_order s order_id vendor_id expected ids) = Inl e)
        \<and> same_store s (snd (OrderService_accept_order s order_id vendor_id expected ids)))"
proof (rule conjI; intro allI impI)
  fix ord' s'
  assume "OrderService_accept_order s order_id vendor_id expected ids = (Inr ord', s')"
  from accept_order_success [OF assms this]
  show "(\<forall>i \<in> set ids. \<exists>c \<in> set (cylinders s). cyl_id c = i \<and> is_available vendor_id c)
        \<and> cylinders s'
            = map (\<lambda>c. if cyl_id c \<in> set ids then assigned_to order_id c else c) (cylinders s)
        \<and> order_cylinders s' = order_cylinders s \<union> (\<lambda>i. (order_id, i)) ` set ids
        \<and> ord_status ord' = OrderStatus.ACCEPTED \<and> ord_vendor_id ord' = Some vendor_id
        \<and> expected_delivery ord' = Some expected
        \<and> select_order s' order_id = Inr (Some ord')
        \<and> order_logs s' = order_logs s @
             [\<lparr>ol_order_id = order_id, ol_event_type = OrderEventType.VENDOR_ASSIGNED,
               ol_old_status = Some OrderStatus.PENDING,
               ol_new_status = Some OrderStatus.ACCEPTED,
               ol_details = Some (AcceptDetails ids expected), ol_notes = None,
               ol_created_by = vendor_id\<rparr>]" .
next
  assume m: "\<exists>i \<in> set ids. \<not> (\<exists>c \<in> set (cylinders s). cyl_id c = i \<and> is_available vendor_id c)"
  from accept_order_missing_cylinder [OF assms m]
  have e: "\<exists>e. fst (OrderService_accept_order s order_id vendor_id expected ids) = Inl e"
    by (rule accept_order_unavailable_fails)
  then have "same_store s (snd (OrderService_accept_order s order_id vendor_id expected ids))"
    using accept_order_failure_same_store by blast
  with e show "(\<exists>e. fst (OrderService_accept_order s order_id vendor_id expected ids) = Inl e)
        \<and> same_store s (snd (OrderService_accept_order s order_id vendor_id expected ids))"
    by (rule conjI)
qed

lemma scenario_ids_unique: "cylinder_ids_unique scenario_state"
  by (simp add: cylinder_ids_unique_def scenario_state_def scenario_cylinder_def)

theorem accept_order_reserves_all_or_nothing_witness:
  "cylinder_ids_unique scenario_state
   \<and> fst (OrderService_accept_order scenario_state 1 20 100 [1, 2, 3])
     = Inr (scenario_order\<lparr>ord_vendor_id := Some 20, ord_status := OrderStatus.ACCEPTED,
                            expected_delivery := Some 100\<rparr>)
   \<and> cylinders (snd (OrderService_accept_order scenario_state 1 20 100 [1, 2, 3]))
     = [assigned_to 1 (scenario_cylinder 1 ''A''), assigned_to 1 (scenario_cylinder 2 ''B''),
        assigned_to 1 (scenario_cylinder 3 ''C'')]
   \<and> order_cylinders (snd (OrderService_accept_order scenario_state 1 20 100 [1, 2, 3]))
     = {(1, 1), (1, 2), (1, 3)}
   \<and> length (order_logs (snd (OrderService_accept_order scenario_state 1 20 100 [1, 2, 3]))) = 1
   \<and> isl (fst (OrderService_accept_order scenario_state 1 20 100 [1, 4]))
   \<and> same_store scenario_state (snd (OrderService_accept_order scenario_state 1 20 100 [1, 4]))"
proof -
  let ?ord' = "scenario_order\<lparr>ord_vendor_id := Some 20, ord_status := OrderStatus.ACCEPTED,
                            expected_delivery := Some 100\<rparr>"
  let ?r = "OrderService_accept_order scenario_state 1 20 100 [1, 2, 3]"
  have "fst ?r = Inr ?ord'"
    by (simp add: OrderService_accept_order_def OrderService_get_def select_order_def
        cache_order_def cache_set_def available_cylinders_def scenario_state_def
        scenario_order_def scenario_cylinder_def Let_def)
  then have r: "?r = (Inr ?ord', snd ?r)" by (metis prod.collapse)
  note inst = accept_order_reserves_all_or_nothing [OF scenario_ids_unique, of 1 20 100]
  from inst [of "[1, 2, 3]"] r
  have ok: "cylinders (snd ?r)
      = map (\<lambda>c. if cyl_id c \<in> set [1, 2, 3] then assigned_to 1 c else c) (cylinders scenario_state)"
    "order_cylinders (snd ?r) = order_cylinders scenario_state \<union> (\<lambda>i. (1, i)) ` set [1, 2, 3]"
    "order_logs (snd ?r) = order_logs scenario_state @
             [\<lparr>ol_order_id = 1, ol_event_type = OrderEventType.VENDOR_ASSIGNED,
               ol_old_status = Some OrderStatus.PENDING,
               ol_new_status = Some OrderStatus.ACCEPTED,
               ol_details = Some (AcceptDetails [1, 2, 3] 100), ol_notes = None,
               ol_created_by = 20\<rparr>]"
    by blast+
  have "\<exists>i \<in> set [1, 4 :: int]. \<not> (\<exists>c \<in> set (cylinders scenario_state). cyl_id c = i \<and> is_available 20 c)"
    by (simp add: scenario_state_def scenario_cylinder_def)
  with inst [of "[1, 4]"]
  have bad: "\<exists>e. fst (OrderService_accept_order scenario_state 1 20 100 [1, 4]) = Inl e"
    "same_store scenario_state (snd (OrderService_accept_order scenario_state 1 20 100 [1, 4]))"
    by blast+
  from bad(1) have "isl (fst (OrderService_accept_order scenario_state 1 20 100 [1, 4]))"
    by auto
  with ok bad(2) \<open>fst ?r = Inr ?ord'\<close> scenario_ids_unique show ?thesis
    by (simp add: scenario_state_def scenario_cylinder_def insert_commute)
qed

section \<open>Facts about cancellation\<close>

lemma unassign_cylinder_alt:
  "unassign_cylinder c s = write_cylinder s (released c)"
  by (simp add: unassign_cylinder_def released_def)

lemma cyl_id_released [simp]: "cyl_id (released c) = cyl_id c"
  by (simp add: released_def)

lemma cylinders_fold_unassign:
  "cylinders (fold unassign_cylinder ts st)
   = fold (\<lambda>t xs. map (\<lambda>c. if cyl_id c = cyl_id t then released t else c) xs) ts
       (cylinders st)"
  by (induction ts arbitrary: st)
     (simp_all add: unassign_cylinder_alt write_cylinder_def)

lemma fold_unassign_other_fields:
  "orders (fold unassign_cylinder ts st) = orders st
   \<and> order_logs (fold unassign_cylinder ts st) = order_logs st
   \<and> cylinder_logs (fold unassign_cylinder ts st) = cylinder_logs st
   \<and> order_cylinders (fold unassign_cylinder ts st) = order_cylinders st
   \<and> cylinders_id_seq (fold unassign_cylinder ts st) = cylinders_id_seq st
   \<and> orders_id_seq (fold unassign_cylinder ts st) = orders_id_seq st"
  by (induction ts arbitrary: st)
     (simp_all add: unassign_cylinder_alt write_cylinder_def)

lemma cancel_order_refused:
  assumes "select_order s order_id = Inr (Some ord)"
    "ord_status ord \<notin> {OrderStatus.PENDING, OrderStatus.ACCEPTED}"
  shows "OrderService_cancel_order s order_id user_id reason
         = (Inl (HTTPException 400 ''Order cannot be cancelled''),
            snd (OrderService_get s order_id))"
proof -
  obtain s1 where g: "OrderService_get s order_id = (select_order s order_id, s1)"
    using OrderService_get_pair by blast
  with assms show ?thesis
    by (simp add: OrderService_cancel_order_def)
qed

lemma cancel_order_done:
  assumes u: "cylinder_ids_unique s"
    and sel: "select_order s order_id = Inr (Some ord)"
    and st: "ord_status ord \<in> {OrderStatus.PENDING, OrderStatus.ACCEPTED}"
  shows "\<exists>s'. OrderService_cancel_order s order_id user_id reason
              = (Inr (ord\<lparr>ord_status := OrderStatus.CANCELLED\<rparr>), s')
     \<and> select_order s' order_id = Inr (Some (ord\<lparr>ord_status := OrderStatus.CANCELLED\<rparr>))
     \<and> order_logs s' = order_logs s @
          [\<lparr>ol_order_id = order_id, ol_event_type = OrderEventType.CANCELLED,
            ol_old_status = Some (ord_status ord),
            ol_new_status = Some OrderStatus.CANCELLED, ol_details = None,
            ol_notes = Some reason, ol_created_by = user_id\<rparr>]
     \<and> cylinders s'
         = map (\<lambda>c. if (order_id, cyl_id c) \<in> order_cylinders s then released c else c)
             (cylinders s)
     \<and> order_cylinders s' = order_cylinders s"
proof -
  obtain s1 where g: "OrderService_get s order_id = (select_order s order_id, s1)"
    and ss: "same_store s s1"
    using OrderService_get_pair by blast
  let ?ord' = "ord\<lparr>ord_status := OrderStatus.CANCELLED\<rparr>"
  let ?T = "filter (\<lambda>c. (order_id, cyl_id c) \<in> order_cylinders s) (cylinders s)"
  let ?s2 = "fold unassign_cylinder ?T (write_order s1 ?ord')"
  let ?log = "\<lparr>ol_order_id = ord_id ?ord', ol_event_type = OrderEventType.CANCELLED,
            ol_old_status = Some (ord_status ord),
            ol_new_status = Some OrderStatus.CANCELLED, ol_details = None,
            ol_notes = Some reason, ol_created_by = user_id\<rparr>"
  let ?s' = "cache_order (OrderService_create_log ?s2 ?log) ?ord'"
  from ss have rows: "order_cylinder_rows s1 order_id = ?T"
    by (simp add: order_cylinder_rows_def same_store_def)
  have res: "OrderService_cancel_order s order_id user_id reason = (Inr ?ord', ?s')"
    using g sel st rows by (auto simp: OrderService_cancel_order_def Let_def)
  from u have d: "distinct (map cyl_id (cylinders s))" by (simp add: cylinder_ids_unique_def)
  from ss have cs1: "cylinders (write_order s1 ?ord') = cylinders s"
    by (simp add: write_order_def same_store_def)
  have "cylinders ?s2 = map (\<lambda>c. if c \<in> set ?T then released c else c) (cylinders s)"
    unfolding cylinders_fold_unassign cs1
    by (rule fold_write_rows [OF d]) auto
  also have "\<dots> = map (\<lambda>c. if (order_id, cyl_id c) \<in> order_cylinders s then released c else c)
             (cylinders s)"
    by (rule map_cong [OF refl]) simp
  finally have cyl: "cylinders ?s'
         = map (\<lambda>c. if (order_id, cyl_id c) \<in> order_cylinders s then released c else c)
             (cylinders s)"
    by (simp add: cache_order_def cache_set_def OrderService_create_log_def)
  from sel have f: "filter (\<lambda>x. ord_id x = order_id) (orders s) = [ord]"
    by (simp add: select_order_def scalar_one_or_none_Some)
  then have "ord \<in> set (filter (\<lambda>x. ord_id x = order_id) (orders s))" by simp
  then have oid: "ord_id ord = order_id" by simp
  have "filter (\<lambda>x. ord_id x = order_id)
          (map (\<lambda>x. if ord_id x = order_id then ?ord' else x) (orders s))
        = map (\<lambda>x. ?ord') (filter (\<lambda>x. ord_id x = order_id) (orders s))"
    by (rule filter_write_row) (simp add: oid)
  then have sel': "select_order ?s' order_id = Inr (Some ?ord')"
    using ss
    by (simp add: select_order_def cache_order_def cache_set_def OrderService_create_log_def
        fold_unassign_other_fields write_order_def same_store_def f oid)
  from ss have logs: "order_logs ?s' = order_logs s @ [?log]"
    and oc: "order_cylinders ?s' = order_cylinders s"
    by (simp_all add: cache_order_def cache_set_def OrderService_create_log_def
        fold_unassign_other_fields write_order_def same_store_def)
  from res sel' logs cyl oc show ?thesis
    by (simp add: oid)
qed

lemma OrderStatus_not_cancellable:
  "(st \<notin> {OrderStatus.PENDING, OrderStatus.ACCEPTED})
   = (st \<in> {OrderStatus.IN_TRANSIT, OrderStatus.DELIVERED, OrderStatus.CANCELLED})"
  by (cases st) simp_all

text \<open>
  Claim C3, as amended. On a store whose cylinder ids are unique and for an order that
  exists: \<^verbatim>\<open>cancel_order\<close> fails with the 400 error "Order cannot be cancelled" exactly
  when the status of the order is in transit, delivered or cancelled; when the status is
  pending or accepted it succeeds, the order returned and stored is cancelled, exactly
  one \<^verbatim>\<open>cancelled\<close> row whose notes are the reason is appended to the order log, and every
  cylinder that is in the cylinder set of the order before the call is afterwards not
  assigned and has no order link, the other cylinders being as before. The cylinders
  released are those of \<^verbatim>\<open>order.cylinders\<close>, not those whose \<^verbatim>\<open>current_order_id\<close> is the
  order.
\<close>

theorem cancel_order_releases_order_cylinders:
  assumes "cylinder_ids_unique s" "select_order s order_id = Inr (Some ord)"
  shows "((fst (OrderService_cancel_order s order_id user_id reason)
            = Inl (HTTPException 400 ''Order cannot be cancelled''))
          = (ord_status ord \<in> {OrderStatus.IN_TRANSIT, OrderStatus.DELIVERED,
                                OrderStatus.CANCELLED}))
    \<and> (ord_status ord \<in> {OrderStatus.PENDING, OrderStatus.ACCEPTED} \<longrightarrow>
        (\<exists>s'. OrderService_cancel_order s order_id user_id reason
                 = (Inr (ord\<lparr>ord_status := OrderStatus.CANCELLED\<rparr>), s')
           \<and> select_order s' order_id = Inr (Some (ord\<lparr>ord_status := OrderStatus.CANCELLED\<rparr>))
           \<and> order_logs s' = order_logs s @
                [\<lparr>ol_order_id = order_id, ol_event_type = OrderEventType.CANCELLED,
                  ol_old_status = Some (ord_status ord),
                  ol_new_status = Some OrderStatus.CANCELLED, ol_details = None,
                  ol_notes = Some reason, ol_created_by = user_id\<rparr>]
           \<and> cylinders s'
               = map (\<lambda>c. if (order_id, cyl_id c) \<in> order_cylinders s then released c else c)
                   (cylinders s)
           \<and> order_cylinders s' = order_cylinders s))"
proof (rule conjI)
  show "(fst (OrderService_cancel_order s order_id user_id reason)
            = Inl (HTTPException 400 ''Order cannot be cancelled''))
          = (ord_status ord \<in> {OrderStatus.IN_TRANSIT, OrderStatus.DELIVERED,
                                OrderStatus.CANCELLED})"
  proof (cases "ord_status ord \<in> {OrderStatus.PENDING, OrderStatus.ACCEPTED}")
    case True
    from cancel_order_done [OF assms True, of user_id reason]
    have "fst (OrderService_cancel_order s order_id user_id reason)
          = Inr (ord\<lparr>ord_status := OrderStatus.CANCELLED\<rparr>)"
      by auto
    with True show ?thesis
      using OrderStatus_not_cancellable [of "ord_status ord"] by simp
  next
    case False
    from cancel_order_refused [OF assms(2) False, of user_id reason] False
    show ?thesis
      using OrderStatus_not_cancellable [of "ord_status ord"] by simp
  qed
next
  show "ord_status ord \<in> {OrderStatus.PENDING, OrderStatus.ACCEPTED} \<longrightarrow>
        (\<exists>s'. OrderService_cancel_order s order_id user_id reason
                 = (Inr (ord\<lparr>ord_status := OrderStatus.CANCELLED\<rparr>), s')
           \<and> select_order s' order_id = Inr (Some (ord\<lparr>ord_status := OrderStatus.CANCELLED\<rparr>))
           \<and> order_logs s' = order_logs s @
                [\<lparr>ol_order_id = order_id, ol_event_type = OrderEventType.CANCELLED,
                  ol_old_status = Some (ord_status ord),
                  ol_new_status = Some OrderStatus.CANCELLED, ol_details = None,
                  ol_notes = Some reason, ol_created_by = user_id\<rparr>]
           \<and> cylinders s'
               = map (\<lambda>c. if (order_id, cyl_id c) \<in> order_cylinders s then released c else c)
                   (cylinders s)
           \<and> order_cylinders s' = order_cylinders s)"
    using cancel_order_done [OF assms, of user_id reason] by (intro impI)
qed

text \<open>
  Claim C3 as stated fails. In the store where cylinder 1 was linked to order 1 by an
  update of the registry, \<^verbatim>\<open>current_order_id\<close> of cylinder 1 is the order; the order is
  pending and its cancellation succeeds; afterwards cylinder 1 is still flagged assigned
  and still linked to the order.
\<close>

theorem cancel_order_leaves_linked_cylinder:
  "map current_order_id (cylinders scenario_linked) = [Some 1, None, None]
   \<and> fst (OrderService_cancel_order scenario_linked 1 10 ''hospital changed mind'')
     = Inr (scenario_order\<lparr>ord_status := OrderStatus.CANCELLED\<rparr>)
   \<and> map current_order_id
       (cylinders (snd (OrderService_cancel_order scenario_linked 1 10 ''hospital changed mind'')))
     = [Some 1, None, None]
   \<and> map is_assigned
       (cylinders (snd (OrderService_cancel_order scenario_linked 1 10 ''hospital changed mind'')))
     = [Some True, Some False, Some False]"
  by (simp add: scenario_linked_def CylinderService_update_def CylinderService_get_def
      select_cylinder_def scenario_state_def scenario_cylinder_def scenario_order_def
      cache_cylinder_def cache_set_def write_cylinder_def setattrs_def field_value_def
      OrderService_cancel_order_def OrderService_get_def select_order_def cache_order_def
      order_cylinder_rows_def write_order_def OrderService_create_log_def Let_def)

lemma scenario_accepted_store:
  "cylinders scenario_accepted
     = [assigned_to 1 (scenario_cylinder 1 ''A''), assigned_to 1 (scenario_cylinder 2 ''B''),
        assigned_to 1 (scenario_cylinder 3 ''C'')]"
  "orders scenario_accepted
     = [scenario_order\<lparr>ord_vendor_id := Some 20, ord_status := OrderStatus.ACCEPTED,
                        expected_delivery := Some 100\<rparr>]"
  "order_cylinders scenario_accepted = {(1, 1), (1, 2), (1, 3)}"
  "cylinders_id_seq scenario_accepted = 4"
  by (simp_all add: scenario_accepted_def OrderService_accept_order_def OrderService_get_def
      select_order_def cache_order_def cache_set_def available_cylinders_def
      scenario_state_def scenario_order_def scenario_cylinder_def assign_cylinder_def
      write_cylinder_def write_order_def OrderService_create_log_def assigned_to_def Let_def
      insert_commute)

theorem cancel_order_releases_order_cylinders_witness:
  "cylinder_ids_unique scenario_accepted
   \<and> select_order scenario_accepted 1
     = Inr (Some (scenario_order\<lparr>ord_vendor_id := Some 20, ord_status := OrderStatus.ACCEPTED,
                                  expected_delivery := Some 100\<rparr>))
   \<and> fst (OrderService_cancel_order scenario_accepted 1 10 ''hospital changed mind'')
     = Inr (scenario_order\<lparr>ord_vendor_id := Some 20, ord_status := OrderStatus.CANCELLED,
                            expected_delivery := Some 100\<rparr>)
   \<and> cylinders (snd (OrderService_cancel_order scenario_accepted 1 10 ''hospital changed mind''))
     = [scenario_cylinder 1 ''A'', scenario_cylinder 2 ''B'', scenario_cylinder 3 ''C'']
   \<and> order_logs (snd (OrderService_cancel_order scenario_accepted 1 10 ''hospital changed mind''))
     = order_logs scenario_accepted @
         [\<lparr>ol_order_id = 1, ol_event_type = OrderEventType.CANCELLED,
           ol_old_status = Some OrderStatus.ACCEPTED,
           ol_new_status = Some OrderStatus.CANCELLED, ol_details = None,
           ol_notes = Some ''hospital changed mind'', ol_created_by = 10\<rparr>]"
proof -
  let ?ord = "scenario_order\<lparr>ord_vendor_id := Some 20, ord_status := OrderStatus.ACCEPTED,
                                  expected_delivery := Some 100\<rparr>"
  have u: "cylinder_ids_unique scenario_accepted"
    by (simp add: cylinder_ids_unique_def scenario_accepted_store assigned_to_def
        scenario_cylinder_def)
  have sel: "select_order scenario_accepted 1 = Inr (Some ?ord)"
    by (simp add: select_order_def scenario_accepted_store scenario_order_def)
  have st: "ord_status ?ord \<in> {OrderStatus.PENDING, OrderStatus.ACCEPTED}"
    by simp
  from cancel_order_releases_order_cylinders [OF u sel, of 10 "''hospital changed mind''"] st
  obtain s' where r: "OrderService_cancel_order scenario_accepted 1 10 ''hospital changed mind''
                 = (Inr (?ord\<lparr>ord_status := OrderStatus.CANCELLED\<rparr>), s')"
    and logs: "order_logs s' = order_logs scenario_accepted @
                [\<lparr>ol_order_id = 1, ol_event_type = OrderEventType.CANCELLED,
                  ol_old_status = Some (ord_status ?ord),
                  ol_new_status = Some OrderStatus.CANCELLED, ol_details = None,
                  ol_notes = Some ''hospital changed mind'', ol_created_by = 10\<rparr>]"
    and cyl: "cylinders s'
               = map (\<lambda>c. if (1, cyl_id c) \<in> order_cylinders scenario_accepted
                          then released c else c)
                   (cylinders scenario_accepted)"
    by blast
  from cyl have "cylinders s'
     = [scenario_cylinder 1 ''A'', scenario_cylinder 2 ''B'', scenario_cylinder 3 ''C'']"
    by (simp add: scenario_accepted_store assigned_to_def released_def scenario_cylinder_def)
  with u sel r logs show ?thesis
    by simp
qed

section \<open>Facts about the assignment invariants\<close>

lemma select_cylinder_Some:
  assumes "select_cylinder s i = Inr (Some c)"
  shows "c \<in> set (cylinders s)" "cyl_id c = i"
    "\<And>x. x \<in> set (cylinders s) \<Longrightarrow> cyl_id x = i \<Longrightarrow> x = c"
proof -
  from assms have f: "filter (\<lambda>c. cyl_id c = i) (cylinders s) = [c]"
    by (simp add: select_cylinder_def scalar_one_or_none_Some)
  then have "c \<in> set (filter (\<lambda>c. cyl_id c = i) (cylinders s))" by simp
  then show "c \<in> set (cylinders s)" "cyl_id c = i" by simp_all
  fix x assume "x \<in> set (cylinders s)" "cyl_id x = i"
  then have "x \<in> set (filter (\<lambda>c. cyl_id c = i) (cylinders s))" by simp
  then show "x = c" by (simp only: f) simp
qed

lemma list_all_map_eq:
  assumes "map f xs = map f ys" "\<And>x y. f x = f y \<Longrightarrow> P x = P y"
  shows "list_all P xs = list_all P ys"
  using assms(1)
proof (induction xs arbitrary: ys)
  case Nil
  then show ?case by simp
next
  case (Cons x xs)
  then obtain y ys' where ys: "ys = y # ys'" "f x = f y" "map f xs = map f ys'"
    by (cases ys) auto
  from Cons.IH [OF ys(3)] assms(2) [OF ys(2)] show ?case
    by (simp add: ys(1))
qed

lemma consistent_cong:
  assumes v: "map row_view (cylinders s') = map row_view (cylinders s)"
    and oc: "order_cylinders s' = order_cylinders s"
    and sq: "cylinders_id_seq s' = cylinders_id_seq s"
  shows "assignment_consistent s' = assignment_consistent s"
proof -
  from v have "map fst (map row_view (cylinders s')) = map fst (map row_view (cylinders s))"
    by (rule arg_cong)
  then have ids: "map cyl_id (cylinders s') = map cyl_id (cylinders s)"
    by (simp add: row_view_def o_def)
  have 1: "cylinder_ids_unique s' = cylinder_ids_unique s"
    by (simp add: cylinder_ids_unique_def ids)
  have "list_all (\<lambda>c. cyl_id c < cylinders_id_seq s) (cylinders s')
      = list_all (\<lambda>c. cyl_id c < cylinders_id_seq s) (cylinders s)"
    by (rule list_all_map_eq [OF v]) (simp add: row_view_def)
  then have 2: "cylinder_ids_issued s' = cylinder_ids_issued s"
    by (simp add: cylinder_ids_issued_def oc sq)
  have 3: "flag_matches_link s' = flag_matches_link s"
    unfolding flag_matches_link_def
    by (rule list_all_map_eq [OF v]) (simp add: row_view_def)
  have 4: "sides_agree s' = sides_agree s"
    unfolding sides_agree_def oc
    by (rule list_all_map_eq [OF v]) (simp add: row_view_def)
  show ?thesis
    by (simp add: assignment_consistent_def 1 2 3 4)
qed

lemma same_store_consistent:
  "same_store s s' \<Longrightarrow> assignment_consistent s' = assignment_consistent s"
  by (rule consistent_cong) (simp_all add: same_store_def)

lemma write_cylinder_view:
  assumes "select_cylinder s i = Inr (Some c)" "row_view c' = row_view c"
  shows "map row_view (cylinders (write_cylinder s c')) = map row_view (cylinders s)"
proof -
  from assms(2) have id: "cyl_id c' = cyl_id c" by (simp add: row_view_def)
  have k: "\<And>x. x \<in> set (cylinders s) \<Longrightarrow>
          row_view (if cyl_id x = cyl_id c' then c' else x) = row_view x"
  proof -
    fix x assume x: "x \<in> set (cylinders s)"
    show "row_view (if cyl_id x = cyl_id c' then c' else x) = row_view x"
    proof (cases "cyl_id x = cyl_id c'")
      case True
      with id select_cylinder_Some(2) [OF assms(1)] have "cyl_id x = i" by simp
      from select_cylinder_Some(3) [OF assms(1) x this] have "x = c" .
      with True assms(2) show ?thesis by simp
    next
      case False
      then show ?thesis by simp
    qed
  qed
  have "cylinders (write_cylinder s c')
        = map (\<lambda>x. if cyl_id x = cyl_id c' then c' else x) (cylinders s)"
    by (simp add: write_cylinder_def)
  then have "map row_view (cylinders (write_cylinder s c'))
        = map (\<lambda>x. row_view (if cyl_id x = cyl_id c' then c' else x)) (cylinders s)"
    by (simp only: map_map o_def)
  also have "\<dots> = map row_view (cylinders s)"
    by (rule map_cong [OF refl]) (rule k)
  finally show ?thesis .
qed

lemma same_store_select_cylinder:
  "same_store s s1 \<Longrightarrow> select_cylinder s1 i = select_cylinder s i"
  by (simp add: same_store_def select_cylinder_def)

lemma bulk_loop_view:
  "map row_view (cylinders (snd (update_status_bulk_loop s ids st loc nts uid oid acc)))
     = map row_view (cylinders s)
   \<and> order_cylinders (snd (update_status_bulk_loop s ids st loc nts uid oid acc))
     = order_cylinders s
   \<and> cylinders_id_seq (snd (update_status_bulk_loop s ids st loc nts uid oid acc))
     = cylinders_id_seq s"
proof (induction ids arbitrary: s acc)
  case Nil
  then show ?case by simp
next
  case (Cons i ids)
  obtain s1 where g: "CylinderService_get s i = (select_cylinder s i, s1)"
    and ss: "same_store s s1"
    using CylinderService_get_pair by blast
  from ss have eq1: "cylinders s1 = cylinders s" "order_cylinders s1 = order_cylinders s"
    "cylinders_id_seq s1 = cylinders_id_seq s" by (simp_all add: same_store_def)
  show ?case
  proof (cases "select_cylinder s i")
    case (Inl e)
    with g eq1 show ?thesis by simp
  next
    case (Inr res)
    show ?thesis
    proof (cases res)
      case None
      with Inr g eq1 Cons.IH [of s1 acc] show ?thesis by simp
    next
      case (Some c)
      show ?thesis
      proof (cases uid)
        case None
        with Some Inr g eq1 show ?thesis by (simp add: Let_def)
      next
        case (Some u)
        let ?c' = "with_status st loc c"
        let ?log = "\<lparr>cl_cylinder_id = cyl_id ?c',
                 cl_event_type = CylinderEventType.STATUS_CHANGED,
                 cl_old_status = Some (cyl_status c), cl_new_status = Some st,
                 cl_order_id = oid, cl_location = loc, cl_notes = nts, cl_created_by = u\<rparr>"
        let ?s3 = "cache_cylinder (CylinderService_create_log (write_cylinder s1 ?c') ?log) ?c'"
        have step: "update_status_bulk_loop s (i # ids) st loc nts uid oid acc
            = update_status_bulk_loop ?s3 ids st loc nts uid oid (acc @ [?c'])"
          using g Inr \<open>res = Some c\<close> Some by (simp add: with_status_def Let_def)
        from Inr \<open>res = Some c\<close> ss have sel1: "select_cylinder s1 i = Inr (Some c)"
          by (simp add: same_store_select_cylinder)
        have "row_view ?c' = row_view c" by (simp add: row_view_def with_status_def)
        from write_cylinder_view [OF sel1 this] eq1
        have v3: "map row_view (cylinders ?s3) = map row_view (cylinders s)"
          by simp
        have o3: "order_cylinders ?s3 = order_cylinders s" "cylinders_id_seq ?s3 = cylinders_id_seq s"
          using eq1 by (simp_all add: cache_cylinder_def cache_set_def
              CylinderService_create_log_def write_cylinder_def)
        from Cons.IH [of ?s3 "acc @ [?c']"] v3 o3 show ?thesis
          unfolding step by (simp only:)
      qed
    qed
  qed
qed

lemma bulk_consistent:
  "assignment_consistent s \<Longrightarrow>
   assignment_consistent
     (snd (CylinderService_update_status_bulk s ids st loc nts uid oid))"
  unfolding CylinderService_update_status_bulk_def
  using consistent_cong [of "snd (update_status_bulk_loop s ids st loc nts uid oid [])" s]
    bulk_loop_view [of s ids st loc nts uid oid "[]"]
  by blast

lemma update_consistent:
  assumes c: "assignment_consistent s"
    and n: "upd_is_assigned cylinder_in = None" "upd_current_order_id cylinder_in = None"
  shows "assignment_consistent (snd (CylinderService_update s i cylinder_in user_id))"
proof -
  obtain s1 where g: "CylinderService_get s i = (select_cylinder s i, s1)"
    and ss: "same_store s s1"
    using CylinderService_get_pair by blast
  from same_store_consistent [OF ss] c have c1: "assignment_consistent s1" by simp
  show ?thesis
  proof (cases "select_cylinder s i")
    case (Inl e)
    with g c1 show ?thesis by (simp add: CylinderService_update_def)
  next
    case (Inr res)
    show ?thesis
    proof (cases res)
      case None
      with Inr g c1 show ?thesis by (simp add: CylinderService_update_def)
    next
      case (Some cyl)
      let ?c' = "setattrs cyl cylinder_in"
      from Inr Some ss have sel1: "select_cylinder s1 i = Inr (Some cyl)"
        by (simp add: same_store_select_cylinder)
      have "row_view ?c' = row_view cyl"
        using n by (simp add: row_view_def setattrs_def)
      from write_cylinder_view [OF sel1 this]
      have v: "\<And>l. map row_view (cylinders (write_cylinder (CylinderService_create_log s1 l) ?c'))
                   = map row_view (cylinders s1)"
        "map row_view (cylinders (write_cylinder s1 ?c')) = map row_view (cylinders s1)"
        by (simp_all add: write_cylinder_def CylinderService_create_log_def)
      have "\<And>l. assignment_consistent
              (cache_cylinder (write_cylinder (CylinderService_create_log s1 l) ?c') ?c')"
        using c1 v(1)
        by (subst consistent_cong [of _ s1])
           (simp_all add: cache_cylinder_def cache_set_def write_cylinder_def
              CylinderService_create_log_def)
      moreover have "assignment_consistent (cache_cylinder (write_cylinder s1 ?c') ?c')"
        using c1 v(2)
        by (subst consistent_cong [of _ s1])
           (simp_all add: cache_cylinder_def cache_set_def write_cylinder_def)
      ultimately show ?thesis
        using g Inr Some c1 by (simp add: CylinderService_update_def Let_def)
    qed
  qed
qed

lemma create_consistent:
  assumes c: "assignment_consistent s"
  shows "assignment_consistent (snd (CylinderService_create s cylinder_in vendor_id))"
proof (cases "select_cylinder_by_serial s (cc_serial_number cylinder_in)")
  case (Inl e)
  with c show ?thesis by (simp add: CylinderService_create_def)
next
  case (Inr res)
  show ?thesis
  proof (cases res)
    case (Some existing)
    with Inr c show ?thesis by (simp add: CylinderService_create_def)
  next
    case None
    let ?new = "\<lparr>cyl_id = cylinders_id_seq s,
                  serial_number = cc_serial_number cylinder_in,
                  cyl_status = cc_status cylinder_in,
                  cyl_vendor_id = vendor_id,
                  cyl_location = cc_location cylinder_in,
                  is_assigned = Some False,
                  current_order_id = None\<rparr>"
    let ?s' = "snd (CylinderService_create s cylinder_in vendor_id)"
    from Inr None have cs: "cylinders ?s' = cylinders s @ [?new]"
      and oc: "order_cylinders ?s' = order_cylinders s"
      and sq: "cylinders_id_seq ?s' = cylinders_id_seq s + 1"
      by (simp_all add: CylinderService_create_def Let_def cache_cylinder_def cache_set_def
          CylinderService_create_log_def)
    from c have u: "distinct (map cyl_id (cylinders s))"
      and below: "list_all (\<lambda>c. cyl_id c < cylinders_id_seq s) (cylinders s)"
      and sub: "snd ` order_cylinders s \<subseteq> {i. i < cylinders_id_seq s}"
      and fl: "flag_matches_link s" and sa: "sides_agree s"
      by (simp_all add: assignment_consistent_def cylinder_ids_unique_def cylinder_ids_issued_def)
    from below have nin: "cylinders_id_seq s \<notin> cyl_id ` set (cylinders s)"
      by (auto simp: list_all_iff)
    have 1: "cylinder_ids_unique ?s'"
      using u nin by (simp add: cylinder_ids_unique_def cs)
    have "list_all (\<lambda>c. cyl_id c < cylinders_id_seq s + 1) (cylinders s)"
      using below by (auto simp: list_all_iff)
    moreover have "snd ` order_cylinders s \<subseteq> {i. i < cylinders_id_seq s + 1}"
      using sub by auto
    ultimately have 2: "cylinder_ids_issued ?s'"
      by (simp add: cylinder_ids_issued_def cs oc sq)
    have 3: "flag_matches_link ?s'"
      using fl by (simp add: flag_matches_link_def cs)
    have "Set.filter (\<lambda>p. snd p = cylinders_id_seq s) (order_cylinders s) = {}"
      using sub by auto
    then have 4: "sides_agree ?s'"
      using sa by (simp add: sides_agree_def cs oc)
    from 1 2 3 4 show ?thesis by (simp add: assignment_consistent_def)
  qed
qed

text \<open>
  The deletion of a cylinder that exists always raises: the log row it has just written
  is a log row of the cylinder. The cylinder row stays and the log row is committed.
\<close>

lemma delete_always_raises:
  assumes sel: "select_cylinder s i = Inr (Some c)"
  shows "fst (CylinderService_delete s i user_id) = Inl IntegrityError
    \<and> cylinders (snd (CylinderService_delete s i user_id)) = cylinders s
    \<and> cylinder_logs (snd (CylinderService_delete s i user_id))
        = cylinder_logs s @
            [\<lparr>cl_cylinder_id = i, cl_event_type = CylinderEventType.DELETED,
              cl_old_status = Some (cyl_status c), cl_new_status = None, cl_order_id = None,
              cl_location = None, cl_notes = Some ''Cylinder deleted'',
              cl_created_by = user_id\<rparr>]"
proof -
  obtain s1 where g: "CylinderService_get s i = (select_cylinder s i, s1)"
    and ss: "same_store s s1"
    using CylinderService_get_pair by blast
  from ss have e: "cylinders s1 = cylinders s" "cylinder_logs s1 = cylinder_logs s"
    by (simp_all add: same_store_def)
  from g sel e select_cylinder_Some(2) [OF sel] show ?thesis
    by (simp add: CylinderService_delete_def Let_def invalidate_cylinder_cache_def
        cache_delete_def CylinderService_create_log_def)
qed

lemma delete_consistent:
  assumes c: "assignment_consistent s"
  shows "assignment_consistent (snd (CylinderService_delete s i user_id))"
proof -
  obtain s1 where g: "CylinderService_get s i = (select_cylinder s i, s1)"
    and ss: "same_store s s1"
    using CylinderService_get_pair by blast
  from same_store_consistent [OF ss] c have c1: "assignment_consistent s1" by simp
  show ?thesis
  proof (cases "select_cylinder s i")
    case (Inl e)
    with g c1 show ?thesis by (simp add: CylinderService_delete_def)
  next
    case (Inr res)
    show ?thesis
    proof (cases res)
      case None
      with Inr g c1 show ?thesis by (simp add: CylinderService_delete_def)
    next
      case (Some cyl)
      let ?s' = "snd (CylinderService_delete s i user_id)"
      from delete_always_raises [of s i cyl user_id] Inr Some
      have cs: "cylinders ?s' = cylinders s" by simp
      from g Inr Some ss
      have "order_cylinders ?s' = order_cylinders s" "cylinders_id_seq ?s' = cylinders_id_seq s"
        by (simp_all add: CylinderService_delete_def Let_def invalidate_cylinder_cache_def
            cache_delete_def CylinderService_create_log_def same_store_def)
      with cs have "assignment_consistent ?s' = assignment_consistent s"
        by (intro consistent_cong) simp_all
      with c show ?thesis by simp
    qed
  qed
qed

text \<open>The creation of an order always raises and leaves the state as it is.\<close>

lemma order_create_always_raises:
  "OrderService_create s order_in hospital = (Inl IntegrityError, s)"
  by (simp add: OrderService_create_def)

lemma order_create_consistent:
  assumes c: "assignment_consistent s"
  shows "assignment_consistent (snd (OrderService_create s order_in hospital))"
  using c by (simp add: order_create_always_raises)

lemma order_update_consistent:
  assumes c: "assignment_consistent s"
  shows "assignment_consistent (snd (OrderService_update_delivery_status s order_id upd user_id))"
proof -
  obtain s1 where g: "OrderService_get s order_id = (select_order s order_id, s1)"
    and ss: "same_store s s1"
    using OrderService_get_pair by blast
  from same_store_consistent [OF ss] c have c1: "assignment_consistent s1" by simp
  show ?thesis
  proof (cases "select_order s order_id")
    case (Inl e)
    with g c1 show ?thesis by (simp add: OrderService_update_delivery_status_def)
  next
    case (Inr res)
    show ?thesis
    proof (cases res)
      case None
      with Inr g c1 show ?thesis by (simp add: OrderService_update_delivery_status_def)
    next
      case (Some ord)
      let ?s' = "snd (OrderService_update_delivery_status s order_id upd user_id)"
      from g Inr Some have "cylinders ?s' = cylinders s1" "order_cylinders ?s' = order_cylinders s1"
        "cylinders_id_seq ?s' = cylinders_id_seq s1"
        by (simp_all add: OrderService_update_delivery_status_def Let_def cache_order_def
            cache_set_def OrderService_create_log_def write_order_def)
      then have "assignment_consistent ?s' = assignment_consistent s1"
        by (intro consistent_cong) simp_all
      with c1 show ?thesis by simp
    qed
  qed
qed

lemma accept_order_seq:
  "cylinders_id_seq (snd (OrderService_accept_order s order_id vendor_id expected ids))
   = cylinders_id_seq s"
proof -
  obtain s1 where g: "OrderService_get s order_id = (select_order s order_id, s1)"
    and ss: "same_store s s1"
    using OrderService_get_pair by blast
  from ss have sq: "cylinders_id_seq s1 = cylinders_id_seq s" by (simp add: same_store_def)
  show ?thesis
  proof (cases "select_order s order_id")
    case (Inl e)
    with g sq show ?thesis by (simp add: OrderService_accept_order_def)
  next
    case (Inr res)
    show ?thesis
    proof (cases res)
      case None
      with Inr g sq show ?thesis by (simp add: OrderService_accept_order_def)
    next
      case (Some ord)
      with Inr g sq show ?thesis
        by (simp add: OrderService_accept_order_def Let_def cache_order_def cache_set_def
            OrderService_create_log_def fold_assign_other_fields write_order_def)
    qed
  qed
qed

lemma accept_consistent:
  assumes c: "assignment_consistent s"
  shows "assignment_consistent (snd (OrderService_accept_order s order_id vendor_id expected ids))"
proof (cases "fst (OrderService_accept_order s order_id vendor_id expected ids)")
  case (Inl e)
  from same_store_consistent [OF accept_order_failure_same_store [OF Inl]] c
  show ?thesis by simp
next
  case (Inr ord')
  let ?s' = "snd (OrderService_accept_order s order_id vendor_id expected ids)"
  let ?f = "\<lambda>c. if cyl_id c \<in> set ids then assigned_to order_id c else c"
  from c have u: "cylinder_ids_unique s"
    and d: "distinct (map cyl_id (cylinders s))"
    and below: "list_all (\<lambda>c. cyl_id c < cylinders_id_seq s) (cylinders s)"
    and sub: "snd ` order_cylinders s \<subseteq> {i. i < cylinders_id_seq s}"
    and fl: "flag_matches_link s" and sa: "sides_agree s"
    by (simp_all add: assignment_consistent_def cylinder_ids_unique_def cylinder_ids_issued_def)
  from Inr have "OrderService_accept_order s order_id vendor_id expected ids = (Inr ord', ?s')"
    by (metis prod.collapse)
  from accept_order_success [OF u this]
  have all: "\<forall>i \<in> set ids. \<exists>c \<in> set (cylinders s). cyl_id c = i \<and> is_available vendor_id c"
    and cs: "cylinders ?s' = map ?f (cylinders s)"
    and oc: "order_cylinders ?s' = order_cylinders s \<union> (\<lambda>i. (order_id, i)) ` set ids"
    by blast+
  have sq: "cylinders_id_seq ?s' = cylinders_id_seq s" by (rule accept_order_seq)
  have idf: "\<And>c. cyl_id (?f c) = cyl_id c" by simp
  have "map cyl_id (map ?f (cylinders s)) = map cyl_id (cylinders s)"
    by (simp only: map_map o_def idf)
  with d have 1: "cylinder_ids_unique ?s'"
    by (simp only: cylinder_ids_unique_def cs)
  have "list_all (\<lambda>c. cyl_id c < cylinders_id_seq s) (map ?f (cylinders s))"
    using below by (simp only: list.pred_map o_def idf)
  moreover have "snd ` (order_cylinders s \<union> (\<lambda>i. (order_id, i)) ` set ids)
                 \<subseteq> {i. i < cylinders_id_seq s}"
  proof -
    have "\<forall>i \<in> set ids. i < cylinders_id_seq s"
      using all below by (auto simp: list_all_iff)
    with sub show ?thesis by auto
  qed
  ultimately have 2: "cylinder_ids_issued ?s'"
    by (simp only: cylinder_ids_issued_def cs oc sq simp_thms)
  have 3: "flag_matches_link ?s'"
    unfolding flag_matches_link_def cs list.pred_map o_def
    using fl [unfolded flag_matches_link_def]
    by (rule list.pred_mono_strong) (simp add: assigned_to_def)
  have avail: "\<And>c. c \<in> set (cylinders s) \<Longrightarrow> cyl_id c \<in> set ids \<Longrightarrow> is_available vendor_id c"
  proof -
    fix c assume c: "c \<in> set (cylinders s)" "cyl_id c \<in> set ids"
    with all obtain c' where c': "c' \<in> set (cylinders s)" "cyl_id c' = cyl_id c"
      "is_available vendor_id c'" by auto
    with d c have "c' = c" by (auto simp: distinct_map inj_on_def)
    with c' show "is_available vendor_id c" by simp
  qed
  have 4: "sides_agree ?s'"
    unfolding sides_agree_def cs oc list_all_iff
  proof
    fix r assume "r \<in> set (map ?f (cylinders s))"
    then obtain c where cin: "c \<in> set (cylinders s)" and r: "r = ?f c" by auto
    from sa cin have old: "fst ` Set.filter (\<lambda>p. snd p = cyl_id c) (order_cylinders s)
        = set_option (current_order_id c)"
      by (simp add: sides_agree_def list_all_iff)
    show "fst ` Set.filter (\<lambda>p. snd p = cyl_id r)
                 (order_cylinders s \<union> (\<lambda>i. (order_id, i)) ` set ids)
          = set_option (current_order_id r)"
    proof (cases "cyl_id c \<in> set ids")
      case True
      from avail [OF cin True] have "is_assigned c = Some False"
        by (simp add: is_available_def)
      with fl cin have "current_order_id c = None"
        by (auto simp: flag_matches_link_def list_all_iff)
      with old have e: "fst ` Set.filter (\<lambda>p. snd p = cyl_id c) (order_cylinders s) = {}"
        by simp
      have "Set.filter (\<lambda>p. snd p = cyl_id c)
                 (order_cylinders s \<union> (\<lambda>i. (order_id, i)) ` set ids)
            = Set.filter (\<lambda>p. snd p = cyl_id c) (order_cylinders s) \<union> {(order_id, cyl_id c)}"
        using True by auto
      then have "fst ` Set.filter (\<lambda>p. snd p = cyl_id c)
                 (order_cylinders s \<union> (\<lambda>i. (order_id, i)) ` set ids)
            = fst ` Set.filter (\<lambda>p. snd p = cyl_id c) (order_cylinders s)
              \<union> fst ` {(order_id, cyl_id c)}"
        by (simp only: image_Un)
      also have "\<dots> = {order_id}"
        by (simp only: e) simp
      finally have "fst ` Set.filter (\<lambda>p. snd p = cyl_id c)
                 (order_cylinders s \<union> (\<lambda>i. (order_id, i)) ` set ids) = {order_id}" .
      moreover from True r have "cyl_id r = cyl_id c" "current_order_id r = Some order_id"
        by (simp_all add: assigned_to_def)
      ultimately show ?thesis by (simp only: option.set)
    next
      case False
      then have "Set.filter (\<lambda>p. snd p = cyl_id c)
                 (order_cylinders s \<union> (\<lambda>i. (order_id, i)) ` set ids)
            = Set.filter (\<lambda>p. snd p = cyl_id c) (order_cylinders s)"
        by auto
      moreover from False r have "r = c" by simp
      ultimately show ?thesis using old by (simp only:)
    qed
  qed
  from 1 2 3 4 show ?thesis by (simp add: assignment_consistent_def)
qed

lemma cancel_order_outcome:
  "(\<exists>e s1. OrderService_cancel_order s order_id user_id reason = (Inl e, s1) \<and> same_store s s1)
   \<or> (\<exists>ord. select_order s order_id = Inr (Some ord)
          \<and> ord_status ord \<in> {OrderStatus.PENDING, OrderStatus.ACCEPTED})"
proof -
  obtain s1 where g: "OrderService_get s order_id = (select_order s order_id, s1)"
    and ss: "same_store s s1"
    using OrderService_get_pair by blast
  show ?thesis
  proof (cases "select_order s order_id")
    case (Inl e)
    with g ss show ?thesis by (simp add: OrderService_cancel_order_def)
  next
    case (Inr res)
    show ?thesis
    proof (cases res)
      case None
      with Inr g ss show ?thesis by (simp add: OrderService_cancel_order_def)
    next
      case (Some ord)
      show ?thesis
      proof (cases "ord_status ord \<in> {OrderStatus.PENDING, OrderStatus.ACCEPTED}")
        case True
        with Inr Some show ?thesis by simp
      next
        case False
        with Inr Some g ss show ?thesis by (simp add: OrderService_cancel_order_def)
      qed
    qed
  qed
qed

lemma cancel_order_seq:
  "cylinders_id_seq (snd (OrderService_cancel_order s order_id user_id reason))
   = cylinders_id_seq s"
proof -
  obtain s1 where g: "OrderService_get s order_id = (select_order s order_id, s1)"
    and ss: "same_store s s1"
    using OrderService_get_pair by blast
  from ss have sq: "cylinders_id_seq s1 = cylinders_id_seq s" by (simp add: same_store_def)
  show ?thesis
  proof (cases "select_order s order_id")
    case (Inl e)
    with g sq show ?thesis by (simp add: OrderService_cancel_order_def)
  next
    case (Inr res)
    show ?thesis
    proof (cases res)
      case None
      with Inr g sq show ?thesis by (simp add: OrderService_cancel_order_def)
    next
      case (Some ord)
      with Inr g sq show ?thesis
        by (simp add: OrderService_cancel_order_def Let_def cache_order_def cache_set_def
            OrderService_create_log_def fold_unassign_other_fields write_order_def)
    qed
  qed
qed

lemma cancel_keeps_flag:
  assumes c: "assignment_consistent s"
  shows "cylinder_ids_unique (snd (OrderService_cancel_order s order_id user_id reason))
    \<and> cylinder_ids_issued (snd (OrderService_cancel_order s order_id user_id reason))
    \<and> flag_matches_link (snd (OrderService_cancel_order s order_id user_id reason))"
proof -
  let ?s' = "snd (OrderService_cancel_order s order_id user_id reason)"
  let ?f = "\<lambda>c. if (order_id, cyl_id c) \<in> order_cylinders s then released c else c"
  from cancel_order_outcome [of s order_id user_id reason] show ?thesis
  proof
    assume "\<exists>e s1. OrderService_cancel_order s order_id user_id reason = (Inl e, s1)
              \<and> same_store s s1"
    then obtain e s1 where "OrderService_cancel_order s order_id user_id reason = (Inl e, s1)"
      and ss: "same_store s s1" by blast
    then have "?s' = s1" by (simp only: snd_conv)
    with ss have "same_store s ?s'" by (simp only:)
    from same_store_consistent [OF this] c show ?thesis
      by (simp add: assignment_consistent_def)
  next
    assume "\<exists>ord. select_order s order_id = Inr (Some ord)
          \<and> ord_status ord \<in> {OrderStatus.PENDING, OrderStatus.ACCEPTED}"
    then obtain ord where sel: "select_order s order_id = Inr (Some ord)"
      and st: "ord_status ord \<in> {OrderStatus.PENDING, OrderStatus.ACCEPTED}" by blast
    from c have u: "cylinder_ids_unique s"
      and d: "distinct (map cyl_id (cylinders s))"
      and below: "list_all (\<lambda>c. cyl_id c < cylinders_id_seq s) (cylinders s)"
      and sub: "snd ` order_cylinders s \<subseteq> {i. i < cylinders_id_seq s}"
      and fl: "flag_matches_link s"
      by (simp_all add: assignment_consistent_def cylinder_ids_unique_def
          cylinder_ids_issued_def)
    from cancel_order_done [OF u sel st, of user_id reason]
    obtain s2 where r: "OrderService_cancel_order s order_id user_id reason
              = (Inr (ord\<lparr>ord_status := OrderStatus.CANCELLED\<rparr>), s2)"
      and cs2: "cylinders s2 = map ?f (cylinders s)"
      and oc2: "order_cylinders s2 = order_cylinders s"
      by blast
    from r have "?s' = s2" by (simp only: snd_conv)
    with cs2 oc2 have cs: "cylinders ?s' = map ?f (cylinders s)"
      and oc: "order_cylinders ?s' = order_cylinders s"
      by (simp_all only:)
    have sq: "cylinders_id_seq ?s' = cylinders_id_seq s" by (rule cancel_order_seq)
    have idf: "\<And>c. cyl_id (?f c) = cyl_id c" by simp
    have "map cyl_id (map ?f (cylinders s)) = map cyl_id (cylinders s)"
      by (simp only: map_map o_def idf)
    with d have 1: "cylinder_ids_unique ?s'"
      by (simp only: cylinder_ids_unique_def cs)
    have "list_all (\<lambda>c. cyl_id c < cylinders_id_seq s) (map ?f (cylinders s))"
      using below by (simp only: list.pred_map o_def idf)
    with sub have 2: "cylinder_ids_issued ?s'"
      by (simp only: cylinder_ids_issued_def cs oc sq simp_thms)
    have 3: "flag_matches_link ?s'"
      unfolding flag_matches_link_def cs list.pred_map o_def
      using fl [unfolded flag_matches_link_def]
      by (rule list.pred_mono_strong) (simp add: released_def)
    from 1 2 3 show ?thesis by simp
  qed
qed

text \<open>
  A pending order whose requested cylinders are all available is accepted.
\<close>

lemma accept_order_succeeds:
  assumes sel: "select_order s order_id = Inr (Some ord)"
    and pend: "ord_status ord = OrderStatus.PENDING"
    and len: "length (available_cylinders s ids vendor_id) = length ids"
  shows "\<not> isl (fst (OrderService_accept_order s order_id vendor_id expected ids))"
proof -
  obtain s1 where "OrderService_get s order_id = (select_order s order_id, s1)"
    and "same_store s s1"
    using OrderService_get_pair by blast
  with assms show ?thesis
    by (simp add: OrderService_accept_order_def same_store_available Let_def)
qed

text \<open>
  Claim C4, as amended. Call a store consistent when its cylinder ids are unique and
  below the id sequence, every cylinder is flagged assigned exactly when its order link
  is set, and for every cylinder the orders whose cylinder set holds it are exactly its
  current order, if any. From a consistent store, cylinder create, cylinder update that
  sets neither \<^verbatim>\<open>is_assigned\<close> nor \<^verbatim>\<open>current_order_id\<close>, bulk status update, cylinder
  delete, order create, order accept and the order engine's delivery status update lead
  to a consistent store, whether they succeed or fail; order cancel keeps the ids unique
  and issued and keeps the flag equal to the presence of the link. Cylinder delete and
  order create are in the list for what they are in the code: the delete of an existing
  cylinder and every order create end in \<^verbatim>\<open>IntegrityError\<close> and leave the cylinder rows
  and the cylinder sets of the orders as they were.
\<close>

theorem assignment_consistency_preserved:
  assumes "assignment_consistent s"
  shows "assignment_consistent (snd (CylinderService_create s cylinder_in vendor_id))
    \<and> (upd_is_assigned upd = None \<and> upd_current_order_id upd = None
        \<longrightarrow> assignment_consistent (snd (CylinderService_update s updated_id upd updater)))
    \<and> assignment_consistent
         (snd (CylinderService_update_status_bulk s cylinder_ids new_status location nts actor
                 order_ref))
    \<and> assignment_consistent (snd (CylinderService_delete s deleted_id deleter))
    \<and> assignment_consistent (snd (OrderService_create s order_in hospital))
    \<and> assignment_consistent
         (snd (OrderService_accept_order s accepted_id vendor expected assigned_ids))
    \<and> assignment_consistent
         (snd (OrderService_update_delivery_status s delivered_id update_data driver))
    \<and> cylinder_ids_unique (snd (OrderService_cancel_order s cancelled_id canceller reason))
    \<and> cylinder_ids_issued (snd (OrderService_cancel_order s cancelled_id canceller reason))
    \<and> flag_matches_link (snd (OrderService_cancel_order s cancelled_id canceller reason))"
  using assms create_consistent update_consistent bulk_consistent delete_consistent
    order_create_consistent accept_consistent order_update_consistent
    cancel_keeps_flag [OF assms, of cancelled_id canceller reason]
  by simp

lemma scenario_state_consistent: "assignment_consistent scenario_state"
  by (simp add: assignment_consistent_def cylinder_ids_unique_def cylinder_ids_issued_def
      flag_matches_link_def sides_agree_def scenario_state_def scenario_cylinder_def)

text \<open>
  Claim C4 as stated fails. The scenario's store is consistent; an update of cylinder 1
  that sets \<^verbatim>\<open>is_assigned\<close> to true and nothing else succeeds and leaves the cylinder
  flagged assigned with no order link.
\<close>

theorem update_breaks_assignment_invariant:
  "assignment_consistent scenario_state
   \<and> \<not> flag_matches_link
         (snd (CylinderService_update scenario_state 1
                 \<lparr>upd_status = None, upd_location = None,
                  upd_is_assigned = Some (Some True), upd_current_order_id = None\<rparr> 20))"
  by (simp add: scenario_state_consistent)
     (simp add: flag_matches_link_def CylinderService_update_def CylinderService_get_def
      select_cylinder_def scenario_state_def scenario_cylinder_def cache_cylinder_def
      cache_set_def write_cylinder_def setattrs_def field_value_def Let_def)

lemma scenario_accepted_consistent: "assignment_consistent scenario_accepted"
proof -
  have "\<And>k. Set.filter (\<lambda>p. snd p = k) {(1, 1), (1, 2), (1, 3 :: int)}
            = (if k \<in> {1, 2, 3} then {(1 :: int, k)} else {})"
    by auto
  then show ?thesis
    by (simp add: assignment_consistent_def cylinder_ids_unique_def cylinder_ids_issued_def
        flag_matches_link_def sides_agree_def scenario_accepted_store assigned_to_def
        scenario_cylinder_def)
qed

text \<open>
  After the cancellation of the accepted order of the scenario the cylinders are
  released, and the order's cylinder set still holds them: the two sides no longer
  agree.
\<close>

lemma cancel_leaves_order_side:
  "\<not> sides_agree (snd (OrderService_cancel_order scenario_accepted 1 10 ''hospital changed mind''))"
proof -
  let ?s' = "snd (OrderService_cancel_order scenario_accepted 1 10 ''hospital changed mind'')"
  have u: "cylinder_ids_unique scenario_accepted"
    using scenario_accepted_consistent by (simp add: assignment_consistent_def)
  have sel: "select_order scenario_accepted 1
     = Inr (Some (scenario_order\<lparr>ord_vendor_id := Some 20, ord_status := OrderStatus.ACCEPTED,
                                  expected_delivery := Some 100\<rparr>))"
    by (simp add: select_order_def scenario_accepted_store scenario_order_def)
  from cancel_order_done [OF u sel, of 10 "''hospital changed mind''"]
  obtain s2 where r: "OrderService_cancel_order scenario_accepted 1 10 ''hospital changed mind''
         = (Inr (scenario_order\<lparr>ord_vendor_id := Some 20, ord_status := OrderStatus.ACCEPTED,
                                  expected_delivery := Some 100, ord_status := OrderStatus.CANCELLED\<rparr>), s2)"
    and cs: "cylinders s2 = map (\<lambda>c. if (1, cyl_id c) \<in> order_cylinders scenario_accepted
                                      then released c else c) (cylinders scenario_accepted)"
    and oc: "order_cylinders s2 = order_cylinders scenario_accepted"
    by auto
  from r have e: "?s' = s2" by (simp only: snd_conv)
  have "(1, 1) \<in> Set.filter (\<lambda>p. snd p = 1) {(1, 1), (1, 2), (1, 3 :: int)}"
    by simp
  then have "fst ` Set.filter (\<lambda>p. snd p = 1) {(1 :: int, 1), (1, 2), (1, 3 :: int)} \<noteq> {}"
    by blast
  then show ?thesis
    unfolding e
    by (simp add: sides_agree_def cs oc scenario_accepted_store assigned_to_def released_def
        scenario_cylinder_def)
qed

text \<open>
  The store after the vendor has accepted the first of two pending orders with cylinders
  1 and 2: the third cylinder is still free and the second order still pending.
\<close>

lemma scenario_partly_store:
  "cylinders scenario_partly
     = [assigned_to 1 (scenario_cylinder 1 ''A''), assigned_to 1 (scenario_cylinder 2 ''B''),
        scenario_cylinder 3 ''C'']"
  "orders scenario_partly
     = [scenario_order\<lparr>ord_vendor_id := Some 20, ord_status := OrderStatus.ACCEPTED,
                        expected_delivery := Some 100\<rparr>,
        scenario_second_order]"
  "order_cylinders scenario_partly = {(1, 1), (1, 2)}"
  "cylinders_id_seq scenario_partly = 4"
  by (simp_all add: scenario_partly_def scenario_two_orders_def scenario_second_order_def
      OrderService_accept_order_def OrderService_get_def
      select_order_def cache_order_def cache_set_def available_cylinders_def
      scenario_state_def scenario_order_def scenario_cylinder_def assign_cylinder_def
      write_cylinder_def write_order_def OrderService_create_log_def assigned_to_def Let_def
      insert_commute)

lemma scenario_partly_consistent: "assignment_consistent scenario_partly"
proof -
  have "\<And>k. Set.filter (\<lambda>p. snd p = k) {(1, 1), (1, 2 :: int)}
            = (if k \<in> {1, 2} then {(1 :: int, k)} else {})"
    by auto
  then show ?thesis
    by (simp add: assignment_consistent_def cylinder_ids_unique_def cylinder_ids_issued_def
        flag_matches_link_def sides_agree_def scenario_partly_store assigned_to_def
        scenario_cylinder_def)
qed

theorem assignment_consistency_preserved_witness:
  "assignment_consistent scenario_partly
   \<and> assignment_consistent
       (snd (CylinderService_create scenario_partly
               \<lparr>cc_serial_number = ''D'', cc_location = None,
                cc_status = CylinderStatus.FILLED\<rparr> 20))
   \<and> assignment_consistent
       (snd (CylinderService_update scenario_partly 1
               \<lparr>upd_status = Some (Some CylinderStatus.IN_TRANSIT), upd_location = None,
                upd_is_assigned = None, upd_current_order_id = None\<rparr> 20))
   \<and> assignment_consistent
       (snd (CylinderService_update_status_bulk scenario_partly [1, 99, 3]
               CylinderStatus.EMPTY None None (Some 20) (Some 1)))
   \<and> isl (fst (CylinderService_delete scenario_partly 3 20))
   \<and> assignment_consistent (snd (CylinderService_delete scenario_partly 3 20))
   \<and> isl (fst (OrderService_create scenario_partly
               \<lparr>oc_quantity = 1, oc_urgency = OrderUrgency.LOW,
                oc_delivery_location = scenario_location,
                oc_special_instructions = None\<rparr> 10))
   \<and> assignment_consistent
       (snd (OrderService_create scenario_partly
               \<lparr>oc_quantity = 1, oc_urgency = OrderUrgency.LOW,
                oc_delivery_location = scenario_location,
                oc_special_instructions = None\<rparr> 10))
   \<and> \<not> isl (fst (OrderService_accept_order scenario_partly 2 20 200 [3]))
   \<and> assignment_consistent (snd (OrderService_accept_order scenario_partly 2 20 200 [3]))
   \<and> assignment_consistent
       (snd (OrderService_update_delivery_status scenario_partly 1
               \<lparr>odu_status = OrderStatus.IN_TRANSIT, odu_cylinders_sent = 2,
                odu_empty_cylinders_returned = 0, odu_delivered_at = None,
                odu_notes = None\<rparr> 20))
   \<and> \<not> isl (fst (OrderService_cancel_order scenario_partly 1 10 ''hospital changed mind''))
   \<and> map is_assigned
       (cylinders (snd (OrderService_cancel_order scenario_partly 1 10 ''hospital changed mind'')))
     = [Some False, Some False, Some False]
   \<and> flag_matches_link
       (snd (OrderService_cancel_order scenario_partly 1 10 ''hospital changed mind''))"
proof -
  note c = scenario_partly_consistent
  have sel3: "select_cylinder scenario_partly 3 = Inr (Some (scenario_cylinder 3 ''C''))"
    by (simp add: select_cylinder_def scenario_partly_store assigned_to_def scenario_cylinder_def)
  from delete_always_raises [OF sel3, of 20]
  have d: "isl (fst (CylinderService_delete scenario_partly 3 20))" by simp
  have oc: "isl (fst (OrderService_create scenario_partly
               \<lparr>oc_quantity = 1, oc_urgency = OrderUrgency.LOW,
                oc_delivery_location = scenario_location,
                oc_special_instructions = None\<rparr> 10))"
    by (simp add: order_create_always_raises)
  have sel2: "select_order scenario_partly 2 = Inr (Some scenario_second_order)"
    by (simp add: select_order_def scenario_partly_store scenario_second_order_def
        scenario_order_def)
  have "length (available_cylinders scenario_partly [3] 20) = length [3 :: int]"
    by (simp add: available_cylinders_def scenario_partly_store assigned_to_def
        scenario_cylinder_def)
  from accept_order_succeeds [OF sel2 _ this, of 200]
  have a: "\<not> isl (fst (OrderService_accept_order scenario_partly 2 20 200 [3]))"
    by (simp add: scenario_second_order_def scenario_order_def)
  let ?ord = "scenario_order\<lparr>ord_vendor_id := Some 20, ord_status := OrderStatus.ACCEPTED,
                        expected_delivery := Some 100\<rparr>"
  have u: "cylinder_ids_unique scenario_partly"
    using c by (simp add: assignment_consistent_def)
  have sel1: "select_order scenario_partly 1 = Inr (Some ?ord)"
    by (simp add: select_order_def scenario_partly_store scenario_second_order_def
        scenario_order_def)
  have st: "ord_status ?ord \<in> {OrderStatus.PENDING, OrderStatus.ACCEPTED}" by simp
  from cancel_order_done [OF u sel1 st, of 10 "''hospital changed mind''"]
  obtain s2 where r: "OrderService_cancel_order scenario_partly 1 10 ''hospital changed mind''
             = (Inr (?ord\<lparr>ord_status := OrderStatus.CANCELLED\<rparr>), s2)"
    and cs: "cylinders s2
         = map (\<lambda>c. if (1, cyl_id c) \<in> order_cylinders scenario_partly then released c else c)
             (cylinders scenario_partly)"
    by blast
  from r have k1: "\<not> isl (fst (OrderService_cancel_order scenario_partly 1 10 ''hospital changed mind''))"
    by simp
  from r cs have k2: "map is_assigned
       (cylinders (snd (OrderService_cancel_order scenario_partly 1 10 ''hospital changed mind'')))
     = [Some False, Some False, Some False]"
    by (simp add: scenario_partly_store assigned_to_def released_def scenario_cylinder_def)
  from assignment_consistency_preserved [OF c,
      of "\<lparr>cc_serial_number = ''D'', cc_location = None, cc_status = CylinderStatus.FILLED\<rparr>" 20
         "\<lparr>upd_status = Some (Some CylinderStatus.IN_TRANSIT), upd_location = None,
                upd_is_assigned = None, upd_current_order_id = None\<rparr>" 1 20
         "[1, 99, 3]" CylinderStatus.EMPTY None None "Some 20" "Some 1" 3 20
         "\<lparr>oc_quantity = 1, oc_urgency = OrderUrgency.LOW,
                oc_delivery_location = scenario_location,
                oc_special_instructions = None\<rparr>" 10 2 20 200 "[3]" 1
         "\<lparr>odu_status = OrderStatus.IN_TRANSIT, odu_cylinders_sent = 2,
                odu_empty_cylinders_returned = 0, odu_delivered_at = None,
                odu_notes = None\<rparr>" 20 1 10 "''hospital changed mind''"]
    c d oc a k1 k2
  show ?thesis by simp
qed

section \<open>The status log in general\<close>

text \<open>
  For a cylinder that resolves, the single update with a status appends the
  \<^verbatim>\<open>status_changed\<close> row exactly when the status differs from the current one; the bulk
  update of that cylinder appends the row whatever the current status is.
\<close>

lemma update_logs_iff_status_changes:
  assumes sel: "select_cylinder s i = Inr (Some c)"
    and st: "upd_status cylinder_in = Some (Some st)"
  shows "cylinder_logs (snd (CylinderService_update s i cylinder_in user_id))
         = (if st \<noteq> cyl_status c
            then cylinder_logs s @
              [\<lparr>cl_cylinder_id = i, cl_event_type = CylinderEventType.STATUS_CHANGED,
                cl_old_status = Some (cyl_status c), cl_new_status = Some st,
                cl_order_id = current_order_id (setattrs c cylinder_in),
                cl_location = field_value (upd_location cylinder_in), cl_notes = None,
                cl_created_by = user_id\<rparr>]
            else cylinder_logs s)"
proof -
  obtain s1 where g: "CylinderService_get s i = (select_cylinder s i, s1)"
    and ss: "same_store s s1"
    using CylinderService_get_pair by blast
  from ss have l: "cylinder_logs s1 = cylinder_logs s" by (simp add: same_store_def)
  have id: "cyl_id (setattrs c cylinder_in) = i"
    using select_cylinder_Some(2) [OF sel] by (simp add: setattrs_def)
  from g sel st l id show ?thesis
    by (simp add: CylinderService_update_def Let_def field_value_def cache_cylinder_def
        cache_set_def write_cylinder_def CylinderService_create_log_def)
qed

lemma bulk_always_logs:
  assumes sel: "select_cylinder s i = Inr (Some c)"
  shows "cylinder_logs (snd (CylinderService_update_status_bulk s [i] st loc nts (Some uid) oid))
         = cylinder_logs s @
              [\<lparr>cl_cylinder_id = i, cl_event_type = CylinderEventType.STATUS_CHANGED,
                cl_old_status = Some (cyl_status c), cl_new_status = Some st,
                cl_order_id = oid, cl_location = loc, cl_notes = nts, cl_created_by = uid\<rparr>]"
proof -
  obtain s1 where g: "CylinderService_get s i = (select_cylinder s i, s1)"
    and ss: "same_store s s1"
    using CylinderService_get_pair by blast
  from ss have l: "cylinder_logs s1 = cylinder_logs s" by (simp add: same_store_def)
  from g sel l select_cylinder_Some(2) [OF sel] show ?thesis
    by (simp add: CylinderService_update_status_bulk_def Let_def cache_cylinder_def
        cache_set_def write_cylinder_def CylinderService_create_log_def)
qed

end
